theory Spec2Isabelle
  imports Main "HOL-Library.List_Lexorder" "HOL-Library.Product_Lexorder"
begin

section \<open>Python values\<close>

text \<open>
  A Python \<open>str\<close> is a sequence of Unicode code points, and \<open>str\<close> comparison is the
  lexicographic order of the code points. The glyphs of the radical tables are not ASCII,
  so a \<open>str\<close> is a list of code points (\<open>nat\<close>), ordered by \<open>List_Lexorder\<close>;
  \<open>ascii\<close> reads an ASCII literal.
\<close>

type_synonym pystr = "nat list"

definition ascii :: "string \<Rightarrow> pystr" where
  "ascii s = map of_char s"

text \<open>\<open>str.isspace\<close> of one code point (the white space that \<open>str.strip()\<close> removes).\<close>

definition py_isspace :: "nat \<Rightarrow> bool" where
  "py_isspace c \<longleftrightarrow>
     (9 \<le> c \<and> c \<le> 13) \<or> (28 \<le> c \<and> c \<le> 32) \<or> c = 133 \<or> c = 160 \<or> c = 5760 \<or>
     (8192 \<le> c \<and> c \<le> 8202) \<or> c = 8232 \<or> c = 8233 \<or> c = 8239 \<or> c = 8287 \<or> c = 12288"

text \<open>\<open>s.strip()\<close>\<close>

definition strip :: "pystr \<Rightarrow> pystr" where
  "strip s = rev (dropWhile py_isspace (rev (dropWhile py_isspace s)))"

text \<open>\<open>s.split(sep)\<close> for a separator of one code point: \<open>''.split('+') == ['']\<close>.\<close>

fun split :: "nat \<Rightarrow> pystr \<Rightarrow> pystr list" where
  "split sep [] = [[]]"
| "split sep (c # cs) =
     (if c = sep then [] # split sep cs
      else (case split sep cs of [] \<Rightarrow> [[c]] | w # ws \<Rightarrow> (c # w) # ws))"

text \<open>\<open>sep.join(parts)\<close>\<close>

fun join :: "pystr \<Rightarrow> pystr list \<Rightarrow> pystr" where
  "join sep [] = []"
| "join sep [p] = p"
| "join sep (p # q # ps) = p @ sep @ join sep (q # ps)"

text \<open>\<open>sub in s\<close> on two \<open>str\<close>: \<open>sub\<close> occurs in \<open>s\<close> as a contiguous substring.\<close>

fun startswith :: "pystr \<Rightarrow> pystr \<Rightarrow> bool" where
  "startswith s [] = True"
| "startswith [] (p # ps) = False"
| "startswith (c # cs) (p # ps) = (c = p \<and> startswith cs ps)"

fun str_contains :: "pystr \<Rightarrow> pystr \<Rightarrow> bool" where
  "str_contains [] sub = (sub = [])"
| "str_contains (c # cs) sub = (startswith (c # cs) sub \<or> str_contains cs sub)"

text \<open>\<open>str(n)\<close> for an \<open>int\<close>.\<close>

fun str_nat :: "nat \<Rightarrow> pystr" where
  "str_nat n = (if n < 10 then [48 + n] else str_nat (n div 10) @ [48 + n mod 10])"

definition str_int :: "int \<Rightarrow> pystr" where
  "str_int i = (if i < 0 then 45 # str_nat (nat (- i)) else str_nat (nat i))"

text \<open>
  A \<open>dict\<close> keeps its keys in insertion order: an association list with one pair per key.
  Storing under a key that is present replaces the value in place; storing under a new key
  appends.
\<close>

type_synonym ('k, 'v) dict = "('k \<times> 'v) list"

definition dict_get :: "('k, 'v) dict \<Rightarrow> 'k \<Rightarrow> 'v option" where
  "dict_get d k = map_of d k"

definition dict_in :: "'k \<Rightarrow> ('k, 'v) dict \<Rightarrow> bool" where
  "dict_in k d \<longleftrightarrow> k \<in> set (map fst d)"

fun dict_set :: "('k, 'v) dict \<Rightarrow> 'k \<Rightarrow> 'v \<Rightarrow> ('k, 'v) dict" where
  "dict_set [] k v = [(k, v)]"
| "dict_set ((k', v') # d) k v =
     (if k' = k then (k, v) # d else (k', v') # dict_set d k v)"

definition dict_keys :: "('k, 'v) dict \<Rightarrow> 'k list" where
  "dict_keys d = map fst d"

text \<open>
  Files. \<open>os.path.exists\<close> is false for a missing file only; \<open>open(path, 'r')\<close> raises
  \<open>FileNotFoundError\<close> on a missing file and \<open>PermissionError\<close> on one that cannot be
  read. The rows are what \<open>csv.DictReader\<close> yields.
\<close>

datatype py_error = FileNotFoundError | PermissionError | KeyError string

datatype 'a csv_file = Missing | Unreadable | Readable 'a

definition path_exists :: "'a csv_file \<Rightarrow> bool" where
  "path_exists f \<longleftrightarrow> f \<noteq> Missing"

definition open_read :: "'a csv_file \<Rightarrow> py_error + 'a" where
  "open_read f = (case f of Missing \<Rightarrow> Inl FileNotFoundError
                  | Unreadable \<Rightarrow> Inl PermissionError
                  | Readable x \<Rightarrow> Inr x)"

section \<open>The data of \<open>build_radicals_from_vocab.py\<close>\<close>

text \<open>A row of \<open>radicals_214.csv\<close>: the four columns that \<open>load_radicals_214\<close> reads.\<close>

record radicals_214_row =
  k_Radical :: pystr
  k_Pinyin :: pystr
  k_Description :: pystr
  k_Meaning :: pystr

text \<open>
  A row of a vocabulary file \<open>basic.csv\<close>, \<open>intermediate.csv\<close>, \<open>advanced.csv\<close>: the
  columns read with \<open>row.get(column, '')\<close>, a missing column being the empty string.
\<close>

record vocab_row =
  v_Word :: pystr
  v_Pinyin :: pystr
  v_English :: pystr
  v_Radicals :: pystr

text \<open>The value stored in \<open>radicals_214\<close> under a glyph.\<close>

record radical_info =
  Radical :: pystr
  Pinyin :: pystr
  Description :: pystr
  Meaning :: pystr
  Set :: pystr

text \<open>
  An entry of \<open>custom_radicals\<close>. The key \<open>MainRadical\<close> exists in the entries of
  variants only.
\<close>

record custom_radical = radical_info +
  Levels :: pystr
  UsageCount :: int
  Traditional :: pystr
  MainRadical :: "pystr option"

text \<open>The value of \<open>radical_usage\<close> under a glyph; \<open>new_usage\<close> is the \<open>defaultdict\<close> factory.\<close>

record usage =
  count :: int
  levels :: "pystr set"
  words :: "pystr list"

definition new_usage :: usage where
  "new_usage = \<lparr>count = 0, levels = {}, words = []\<rparr>"

text \<open>A row of \<open>radicals.csv\<close> as \<open>csv.DictReader\<close> yields it: column name to text.\<close>

type_synonym csv_row = "(string, pystr) dict"

text \<open>The files under \<open>data/languages/chinese\<close> that the two scripts open.\<close>

record filesystem =
  radicals_214_csv :: "radicals_214_row list csv_file"
  basic_csv :: "vocab_row list csv_file"
  intermediate_csv :: "vocab_row list csv_file"
  advanced_csv :: "vocab_row list csv_file"
  radicals_csv :: "csv_row list csv_file"

text \<open>
  The module-level tables, which the functions read as globals: simplified glyph to
  (traditional glyph, note), variant glyph to main radical, component glyph to
  (pinyin, meaning).
\<close>

record globals =
  TRADITIONAL_FORMS :: "(pystr, pystr \<times> pystr) dict"
  VARIANT_TO_MAIN :: "(pystr, pystr) dict"
  COMMON_COMPONENTS :: "(pystr, pystr \<times> pystr) dict"

definition kangxi_214 :: pystr where
  "kangxi_214 = ascii ''kangxi_214''"

definition variant :: pystr where
  "variant = ascii ''variant''"

definition component :: pystr where
  "component = ascii ''component''"

definition basic :: pystr where
  "basic = ascii ''basic''"

definition intermediate :: pystr where
  "intermediate = ascii ''intermediate''"

definition advanced :: pystr where
  "advanced = ascii ''advanced''"

text \<open>\<open>levels = ['basic', 'intermediate', 'advanced']\<close>\<close>

definition level_names :: "pystr list" where
  "level_names = [basic, intermediate, advanced]"

text \<open>The file at \<open>f'{level}.csv'\<close>; no other name is ever asked for.\<close>

definition vocab_csv :: "filesystem \<Rightarrow> pystr \<Rightarrow> vocab_row list csv_file" where
  "vocab_csv fs level =
     (if level = basic then basic_csv fs
      else if level = intermediate then intermediate_csv fs
      else if level = advanced then advanced_csv fs
      else Missing)"

text \<open>
  The three tables as the module defines them, each glyph and each reading with a
  non-ASCII letter written as its code points.
\<close>

definition traditional_forms :: "(pystr, pystr \<times> pystr) dict" where
  "traditional_forms =
     [([35744], [35328], ascii ''speech radical''),
      ([38021], [37329], ascii ''metal radical''),
      ([39267], [39135], ascii ''food radical''),
      ([32415], [31992], ascii ''silk radical''),
      ([36710], [36554], ascii ''cart/vehicle''),
      ([36125], [35997], ascii ''shell/money''),
      ([35265], [35211], ascii ''see''),
      ([38376], [38272], ascii ''gate/door''),
      ([39532], [39340], ascii ''horse''),
      ([40060], [39770], ascii ''fish''),
      ([40479], [40165], ascii ''bird''),
      ([40831], [40786], ascii ''tooth''),
      ([40857], [40845], ascii ''dragon''),
      ([40863], [40860], ascii ''turtle''),
      ([39029], [38913], ascii ''page/leaf''),
      ([39118], [39080], ascii ''wind''),
      ([39134], [39131], ascii ''fly''),
      ([38271], [38263], ascii ''long''),
      ([38886], [38859], ascii ''tanned leather''),
      ([40614], [40613], ascii ''wheat''),
      ([40644], [40643], ascii ''yellow''),
      ([40784], [40778], ascii ''even/neat''),
      ([36790], [36789], ascii ''walk/move'')]"

definition variant_to_main :: "(pystr, pystr) dict" where
  "variant_to_main =
     [([20155], [20154]),
      ([20994], [20992]),
      ([27701], [27700]),
      ([28780], [28779]),
      ([25164], [25163]),
      ([24516], [24515]),
      ([29357], [29356]),
      ([31035], [31034]),
      ([34916], [34915]),
      ([32415], [31992]),
      ([38021], [37329]),
      ([39267], [39135]),
      ([35744], [35328]),
      ([38429], [38428]),
      ([32594], [32593]),
      ([11950], [31481]),
      ([11958], [32650]),
      ([11964], [26376]),
      ([29227], [29226]),
      ([11978], [36275])]"

definition common_components :: "(pystr, pystr \<times> pystr) dict" where
  "common_components =
     [([20032], [102, 250], ascii ''left-falling stroke''),
      ([20034], [121, 236], ascii ''to mow; to cut''),
      ([20045], [122, 104, 224], ascii ''suddenly; at first''),
      ([20046], [104, 363], ascii ''question particle''),
      ([20058], [121, 464], ascii ''hidden; second''),
      ([20062], [113, 464], ascii ''to beg''),
      ([20065], [120, 105, 257, 110, 103], ascii ''village; countryside''),
      ([20063], [121, 283], ascii ''also; too''),
      ([20102], ascii ''le'', ascii ''completed action marker''),
      ([20110], [121, 250], ascii ''at; in; to''),
      ([20026], [119, 232, 105], ascii ''for; to be''),
      ([19978], [115, 104, 224, 110, 103], ascii ''up; above''),
      ([19979], [120, 105, 224], ascii ''down; below''),
      ([19981], [98, 249], ascii ''not; no''),
      ([19969], [100, 299, 110, 103], ascii ''male adult; nail''),
      ([19977], [115, 257, 110], ascii ''three''),
      ([19996], [100, 333, 110, 103], ascii ''east''),
      ([20013], [122, 104, 333, 110, 103], ascii ''middle; center''),
      ([20132], [106, 105, 257, 111], ascii ''to hand over; to intersect''),
      ([20133], [104, 224, 105], ascii ''12th earthly branch''),
      ([20170], [106, 299, 110], ascii ''now; today''),
      ([20174], [99, 243, 110, 103], ascii ''from; to follow''),
      ([20177], [108, 250, 110], ascii ''logical; arrange''),
      ([20197], [121, 464], ascii ''by means of; because''),
      ([20219], [114, 232, 110], ascii ''to appoint; responsibility''),
      ([20309], [104, 233], ascii ''what; which''),
      ([20316], [122, 117, 242], ascii ''to do; to make''),
      ([20505], [104, 242, 117], ascii ''to wait; time''),
      ([20512], [115, 117, 299], ascii ''name component''),
      ([20804], [120, 105, 333, 110, 103], ascii ''elder brother''),
      ([20817], [100, 117, 236], ascii ''to exchange''),
      ([20840], [113, 117, 225, 110], ascii ''whole; complete''),
      ([20849], [103, 242, 110, 103], ascii ''together; common''),
      ([20854], [113, 237], ascii ''his; her; its''),
      ([20995], [114, 232, 110], ascii ''blade; edge''),
      ([20998], [102, 275, 110], ascii ''to divide; minute''),
      ([21069], [113, 105, 225, 110], ascii ''front; before''),
      ([21242], [115, 104, 225, 111], ascii ''spoon; ladle''),
      ([21320], [119, 468], ascii ''noon''),
      ([21407], [121, 117, 225, 110], ascii ''origin; source''),
      ([21453], [102, 462, 110], ascii ''opposite; to return''),
      ([21462], [113, 468], ascii ''to take; to fetch''),
      ([21496], [115, 299], ascii ''to manage; department''),
      ([21518], [104, 242, 117], ascii ''after; behind''),
      ([22240], [121, 299, 110], ascii ''because; cause''),
      ([22312], [122, 224, 105], ascii ''at; in''),
      ([22764], [114, 233, 110], ascii ''9th heavenly stem''),
      ([22828], [103, 117, 224, 105], ascii ''to part; to decide''),
      ([22825], [116, 105, 257, 110], ascii ''sky; day''),
      ([22836], [116, 243, 117], ascii ''head''),
      ([23436], [119, 225, 110], ascii ''complete; finish''),
      ([23454], [115, 104, 237], ascii ''real; solid''),
      ([23545], [100, 117, 236], ascii ''correct; pair''),
      ([23548], [100, 462, 111], ascii ''to guide; to lead''),
      ([23572], [283, 114], ascii ''you (archaic)''),
      ([23612], [110, 237], ascii ''Buddhist nun''),
      ([23613], [106, 236, 110], ascii ''to exhaust; to the utmost''),
      ([24050], [121, 464], ascii ''already''),
      ([24052], [98, 257], ascii ''hope; tail''),
      ([24120], [99, 104, 225, 110, 103], ascii ''often; common''),
      ([24403], [100, 257, 110, 103], ascii ''to be; act as''),
      ([24448], [119, 462, 110, 103], ascii ''to go; towards''),
      ([24517], [98, 236], ascii ''must; certainly''),
      ([26102], [115, 104, 237], ascii ''time; hour''),
      ([26159], [115, 104, 236], ascii ''is; to be''),
      ([27491], [122, 104, 232, 110, 103], ascii ''upright; correct''),
      ([27492], [99, 464], ascii ''this; these''),
      ([27599], [109, 283, 105], ascii ''every''),
      ([20851], [103, 117, 257, 110], ascii ''shut; pass''),
      ([25925], [103, 249], ascii ''therefore; reason''),
      ([26025], [122, 104, 462, 110], ascii ''to chop; to behead''),
      ([26029], [100, 117, 224, 110], ascii ''to break; to judge''),
      ([26086], [100, 224, 110], ascii ''dawn; day''),
      ([26089], [122, 462, 111], ascii ''early; morning''),
      ([26126], [109, 237, 110, 103], ascii ''bright; clear''),
      ([26174], [120, 105, 462, 110], ascii ''to show; obvious''),
      ([26223], [106, 464, 110, 103], ascii ''scenery; view''),
      ([26359], [104, 233], ascii ''why; how''),
      ([26368], [122, 117, 236], ascii ''most; -est''),
      ([26377], [121, 466, 117], ascii ''to have''),
      ([26412], [98, 283, 110], ascii ''root; origin; book classifier''),
      ([26463], [115, 104, 249], ascii ''bundle; to bind''),
      ([26512], [120, 299], ascii ''to analyze''),
      ([26524], [103, 117, 466], ascii ''fruit; result''),
      ([26631], [98, 105, 257, 111], ascii ''mark; sign''),
      ([26681], [103, 275, 110], ascii ''root; basis''),
      ([27861], [102, 462], ascii ''law; method''),
      ([28857], [100, 105, 462, 110], ascii ''dot; point''),
      ([28982], [114, 225, 110], ascii ''correct; so''),
      ([29579], [119, 225, 110, 103], ascii ''king''),
      ([29616], [120, 105, 224, 110], ascii ''appear; present''),
      ([30001], [121, 243, 117], ascii ''from; due to''),
      ([30005], [100, 105, 224, 110], ascii ''electricity''),
      ([30456], [120, 105, 257, 110, 103], ascii ''mutual''),
      ([30830], [113, 117, 232], ascii ''true; certain''),
      ([31243], [99, 104, 233, 110, 103], ascii ''journey; procedure''),
      ([31649], [103, 117, 462, 110], ascii ''tube; to manage''),
      ([31995], [120, 236], ascii ''system; to tie''),
      ([32456], [122, 104, 333, 110, 103], ascii ''end; finally''),
      ([32463], [106, 299, 110, 103], ascii ''to pass through; scripture''),
      ([32467], [106, 105, 233], ascii ''to tie; result''),
      ([33041], [110, 462, 111], ascii ''brain''),
      ([33719], [104, 117, 242], ascii ''to obtain''),
      ([34920], [98, 105, 462, 111], ascii ''surface; to express''),
      ([35266], [103, 117, 257, 110], ascii ''to view; concept''),
      ([35299], [106, 105, 283], ascii ''to untie; to explain''),
      ([35328], [121, 225, 110], ascii ''speech; word''),
      ([35777], [122, 104, 232, 110, 103], ascii ''to prove; evidence''),
      ([36131], [122, 233], ascii ''duty; to blame''),
      ([36890], [116, 333, 110, 103], ascii ''to pass through''),
      ([37030], [98, 257, 110, 103], ascii ''nation; country''),
      ([37319], [99, 462, 105], ascii ''to pick; to gather''),
      ([37322], [115, 104, 236], ascii ''to explain; to release''),
      ([38500], [99, 104, 250], ascii ''to remove; except''),
      ([38543], [115, 117, 237], ascii ''to follow''),
      ([39035], [120, 363], ascii ''must; beard''),
      ([39564], [121, 224, 110], ascii ''to examine; to test''),
      ([20010], [103, 232], ascii ''general classifier''),
      ([20040], ascii ''me'', ascii ''suffix''),
      ([20117], [106, 464, 110, 103], ascii ''well''),
      ([20803], [121, 117, 225, 110], ascii ''currency unit; first''),
      ([20113], [121, 250, 110], ascii ''cloud''),
      ([20116], [119, 468], ascii ''five''),
      ([20845], [108, 105, 249], ascii ''six''),
      ([19971], [113, 299], ascii ''seven''),
      ([20061], [106, 105, 468], ascii ''nine''),
      ([21150], [98, 224, 110], ascii ''to do; manage''),
      ([21435], [113, 249], ascii ''to go''),
      ([21451], [121, 466, 117], ascii ''friend''),
      ([21457], [102, 257], ascii ''send; emit''),
      ([21482], [122, 104, 464], ascii ''only''),
      ([21487], [107, 283], ascii ''can; able''),
      ([21488], [116, 225, 105], ascii ''platform''),
      ([21512], [104, 233], ascii ''combine; fit''),
      ([21516], [116, 243, 110, 103], ascii ''same; together''),
      ([21517], [109, 237, 110, 103], ascii ''name''),
      ([22238], [104, 117, 237], ascii ''return''),
      ([22810], [100, 117, 333], ascii ''many; much''),
      ([22826], [116, 224, 105], ascii ''too; very''),
      ([23569], [115, 104, 462, 111], ascii ''few; little''),
      ([24179], [112, 237, 110, 103], ascii ''flat; level''),
      ([24320], [107, 257, 105], ascii ''open; start''),
      ([25165], [99, 225, 105], ascii ''talent; just now''),
      ([25214], [122, 104, 462, 111], ascii ''look for''),
      ([25226], [98, 462], ascii ''grasp; hold''),
      ([26469], [108, 225, 105], ascii ''come''),
      ([26679], [121, 224, 110, 103], ascii ''appearance; shape''),
      ([27425], [99, 236], ascii ''time; order''),
      ([27604], [98, 464], ascii ''compare''),
      ([30340], ascii ''de'', ascii ''possessive particle''),
      ([30495], [122, 104, 275, 110], ascii ''real; true''),
      ([30528], ascii ''zhe'', ascii ''aspect marker''),
      ([31181], [122, 104, 466, 110, 103], ascii ''kind; type''),
      ([31354], [107, 333, 110, 103], ascii ''empty; air''),
      ([31532], [100, 236], ascii ''prefix for ordinal numbers''),
      ([31561], [100, 283, 110, 103], ascii ''wait; class''),
      ([32473], [103, 283, 105], ascii ''give''),
      ([32654], [109, 283, 105], ascii ''beautiful''),
      ([32769], [108, 462, 111], ascii ''old''),
      ([32780], [233, 114], ascii ''and; but''),
      ([33021], [110, 233, 110, 103], ascii ''can; be able''),
      ([33258], [122, 236], ascii ''self''),
      ([35199], [120, 299], ascii ''west''),
      ([35201], [121, 224, 111], ascii ''want; need''),
      ([35748], [114, 232, 110], ascii ''recognize''),
      ([35805], [104, 117, 224], ascii ''word; speech''),
      ([35828], [115, 104, 117, 333], ascii ''speak; say''),
      ([35937], [120, 105, 224, 110, 103], ascii ''elephant; image''),
      ([36215], [113, 464], ascii ''rise; start''),
      ([36710], [99, 104, 275], ascii ''car; vehicle''),
      ([36793], [98, 105, 257, 110], ascii ''side; edge''),
      ([36807], [103, 117, 242], ascii ''pass; cross''),
      ([36824], [104, 225, 105], ascii ''still; yet''),
      ([36827], [106, 236, 110], ascii ''enter''),
      ([36947], [100, 224, 111], ascii ''way; path''),
      ([37027], [110, 224], ascii ''that''),
      ([37324], [108, 464], ascii ''inside''),
      ([37325], [122, 104, 242, 110, 103], ascii ''heavy''),
      ([38388], [106, 105, 257, 110], ascii ''between; room''),
      ([38590], [110, 225, 110], ascii ''difficult''),
      ([38754], [109, 105, 224, 110], ascii ''face; surface''),
      ([39640], [103, 257, 111], ascii ''high; tall'')]"

definition module_globals :: globals where
  "module_globals =
     \<lparr>TRADITIONAL_FORMS = traditional_forms, VARIANT_TO_MAIN = variant_to_main,
      COMMON_COMPONENTS = common_components\<rparr>"

section \<open>\<open>load_radicals_214\<close>\<close>

definition info_of_row :: "radicals_214_row \<Rightarrow> radical_info" where
  "info_of_row row =
     \<lparr>Radical = k_Radical row, Pinyin = k_Pinyin row, Description = k_Description row,
      Meaning = k_Meaning row, Set = kangxi_214\<rparr>"

text \<open>The body of \<open>for row in reader\<close>: a glyph that is already a key is left alone.\<close>

definition load_row ::
  "(pystr, radical_info) dict \<Rightarrow> radicals_214_row \<Rightarrow> (pystr, radical_info) dict" where
  "load_row radicals row =
     (let rad = k_Radical row
      in if \<not> dict_in rad radicals then dict_set radicals rad (info_of_row row)
         else radicals)"

definition load_rows :: "radicals_214_row list \<Rightarrow> (pystr, radical_info) dict" where
  "load_rows rows = foldl load_row [] rows"

definition load_radicals_214 :: "filesystem \<Rightarrow> py_error + (pystr, radical_info) dict" where
  "load_radicals_214 fs =
     (case open_read (radicals_214_csv fs) of
        Inl e \<Rightarrow> Inl e
      | Inr rows \<Rightarrow> Inr (load_rows rows))"

section \<open>\<open>extract_radicals_from_vocab\<close>\<close>

text \<open>
  The three statements under \<open>if rad:\<close>. \<open>radical_usage[rad]\<close> creates the record of a
  glyph that has none.
\<close>

definition record_use :: "pystr \<Rightarrow> pystr \<Rightarrow> usage \<Rightarrow> usage" where
  "record_use level word u =
     u\<lparr>count := count u + 1,
       levels := insert level (levels u),
       words := (if int (length (words u)) < 5 then words u @ [word] else words u)\<rparr>"

definition use_radical ::
  "pystr \<Rightarrow> pystr \<Rightarrow> (pystr, usage) dict \<Rightarrow> pystr \<Rightarrow> (pystr, usage) dict" where
  "use_radical level word radical_usage rad =
     dict_set radical_usage rad
       (record_use level word
          (case dict_get radical_usage rad of None \<Rightarrow> new_usage | Some u \<Rightarrow> u))"

text \<open>The body of \<open>for rad in radicals_str.split('+')\<close>.\<close>

definition scan_component ::
  "pystr \<Rightarrow> pystr \<Rightarrow> (pystr, usage) dict \<Rightarrow> pystr \<Rightarrow> (pystr, usage) dict" where
  "scan_component level word radical_usage rad0 =
     (let rad = strip rad0
      in if rad \<noteq> [] then use_radical level word radical_usage rad else radical_usage)"

text \<open>The body of \<open>for row in reader\<close>; the state is \<open>(radical_usage, vocab_lookup)\<close>.\<close>

type_synonym extract_state = "(pystr, usage) dict \<times> (pystr, pystr \<times> pystr) dict"

definition scan_row :: "pystr \<Rightarrow> extract_state \<Rightarrow> vocab_row \<Rightarrow> extract_state" where
  "scan_row level st row =
     (let radical_usage = fst st; vocab_lookup = snd st;
          word = v_Word row; pinyin = v_Pinyin row; english = v_English row;
          radicals_str = v_Radicals row;
          vocab_lookup' =
            (if word \<noteq> [] \<and> \<not> dict_in word vocab_lookup
             then dict_set vocab_lookup word (pinyin, english) else vocab_lookup)
      in if radicals_str = [] then (radical_usage, vocab_lookup')
         else (foldl (scan_component level word) radical_usage (split 43 radicals_str),
               vocab_lookup'))"

text \<open>The body of \<open>for level in levels\<close>: a missing file is skipped, the loop goes on.\<close>

definition scan_level ::
  "filesystem \<Rightarrow> extract_state \<Rightarrow> pystr \<Rightarrow> py_error + extract_state" where
  "scan_level fs st level =
     (if \<not> path_exists (vocab_csv fs level) then Inr st
      else (case open_read (vocab_csv fs level) of
              Inl e \<Rightarrow> Inl e
            | Inr rows \<Rightarrow> Inr (foldl (scan_row level) st rows)))"

fun scan_levels ::
  "filesystem \<Rightarrow> extract_state \<Rightarrow> pystr list \<Rightarrow> py_error + extract_state" where
  "scan_levels fs st [] = Inr st"
| "scan_levels fs st (level # ls) =
     (case scan_level fs st level of
        Inl e \<Rightarrow> Inl e
      | Inr st' \<Rightarrow> scan_levels fs st' ls)"

definition extract_radicals_from_vocab :: "filesystem \<Rightarrow> py_error + extract_state" where
  "extract_radicals_from_vocab fs = scan_levels fs ([], []) level_names"

section \<open>\<open>build_custom_radicals\<close>, \<open>sort_radicals\<close>, \<open>write_radicals_csv\<close>, \<open>main\<close>\<close>

text \<open>\<open>','.join(sorted(usage['levels']))\<close>\<close>

definition joined_levels :: "usage \<Rightarrow> pystr" where
  "joined_levels u = join (ascii '','') (sorted_list_of_set (levels u))"

text \<open>
  The body of \<open>for rad, usage in radical_usage.items()\<close>: the entry appended to
  \<open>custom_radicals\<close>. The branches are tried in the order of the source.
\<close>

definition custom_entry ::
  "globals \<Rightarrow> (pystr, radical_info) dict \<Rightarrow> (pystr, pystr \<times> pystr) dict \<Rightarrow>
   pystr \<Rightarrow> usage \<Rightarrow> custom_radical" where
  "custom_entry g radicals_214 vocab_lookup rad u =
     (case dict_get radicals_214 rad of
        Some own \<Rightarrow>
          \<lparr>Radical = Radical own, Pinyin = Pinyin own, Description = Description own,
           Meaning = Meaning own, Set = Set own,
           Levels = joined_levels u, UsageCount = count u,
           Traditional = (case dict_get (TRADITIONAL_FORMS g) rad of
                            Some (trad, note) \<Rightarrow> trad | None \<Rightarrow> rad),
           MainRadical = None\<rparr>
      | None \<Rightarrow>
         (case dict_get (VARIANT_TO_MAIN g) rad of
            Some main_rad \<Rightarrow>
              (case dict_get radicals_214 main_rad of
                 Some base \<Rightarrow>
                   \<lparr>Radical = rad, Pinyin = Pinyin base,
                    Description = Description base @ ascii '' (variant form)'',
                    Meaning = Meaning base @ ascii '' (component form)'',
                    Set = variant,
                    Levels = joined_levels u, UsageCount = count u,
                    Traditional = rad, MainRadical = Some main_rad\<rparr>
               | None \<Rightarrow>
                   \<lparr>Radical = rad, Pinyin = [],
                    Description = ascii ''variant of '' @ main_rad,
                    Meaning = ascii ''component form'',
                    Set = variant,
                    Levels = joined_levels u, UsageCount = count u,
                    Traditional = rad, MainRadical = Some main_rad\<rparr>)
          | None \<Rightarrow>
              (let (pinyin, description, meaning) =
                     (case dict_get vocab_lookup rad of
                        Some (p, m) \<Rightarrow> (p, ascii ''character component (also a word)'', m)
                      | None \<Rightarrow>
                         (case dict_get (COMMON_COMPONENTS g) rad of
                            Some (p, meaning_text) \<Rightarrow>
                              (p, ascii ''common character component'', meaning_text)
                          | None \<Rightarrow>
                              ([], ascii ''word component'',
                               ascii ''character component (not official radical)'')))
               in \<lparr>Radical = rad, Pinyin = pinyin, Description = description,
                   Meaning = meaning, Set = component,
                   Levels = joined_levels u, UsageCount = count u,
                   Traditional = rad, MainRadical = None\<rparr>)))"

definition build_custom_radicals ::
  "globals \<Rightarrow> (pystr, radical_info) dict \<Rightarrow> (pystr, usage) dict \<Rightarrow>
   (pystr, pystr \<times> pystr) dict \<Rightarrow> custom_radical list" where
  "build_custom_radicals g radicals_214 radical_usage vocab_lookup =
     map (\<lambda>(rad, u). custom_entry g radicals_214 vocab_lookup rad u) radical_usage"

text \<open>
  \<open>set_order\<close> and the sort key \<open>(set_order.get(r.get('Set', 'component'), 3), r['Radical'])\<close>.
  Every entry has the key \<open>Set\<close>. Tuples compare lexicographically; \<open>sorted\<close> is stable, as
  \<open>sort_key\<close> is.
\<close>

definition set_order :: "(pystr, int) dict" where
  "set_order = [(kangxi_214, 0), (variant, 1), (component, 2)]"

definition radical_key :: "custom_radical \<Rightarrow> int \<times> pystr" where
  "radical_key r =
     ((case dict_get set_order (Set r) of Some n \<Rightarrow> n | None \<Rightarrow> 3), Radical r)"

definition sort_radicals :: "custom_radical list \<Rightarrow> custom_radical list" where
  "sort_radicals radicals = sort_key radical_key radicals"

text \<open>
  \<open>csv.DictWriter\<close> with \<open>fieldnames\<close>: one row per entry, a missing key written as the
  empty string, the count written with \<open>str\<close>. The file is replaced.
\<close>

definition csv_row_of :: "custom_radical \<Rightarrow> csv_row" where
  "csv_row_of r =
     [(''Radical'', Radical r), (''Pinyin'', Pinyin r), (''Description'', Description r),
      (''Meaning'', Meaning r), (''Set'', Set r), (''Traditional'', Traditional r),
      (''Levels'', Levels r), (''UsageCount'', str_int (UsageCount r)),
      (''MainRadical'', (case MainRadical r of None \<Rightarrow> [] | Some m \<Rightarrow> m))]"

definition write_radicals_csv :: "custom_radical list \<Rightarrow> filesystem \<Rightarrow> filesystem" where
  "write_radicals_csv radicals fs = fs\<lparr>radicals_csv := Readable (map csv_row_of radicals)\<rparr>"

text \<open>
  \<open>main\<close> of the builder. \<open>derive\<close> is its part before the output is written:
  load, extract, build, sort, an exception of a load ending the run. \<open>build_main\<close>
  returns the exception that ended the run, if any, and the files after the run: they are
  unchanged after an exception, and have the new \<open>radicals.csv\<close> otherwise.
\<close>

definition derive ::
  "globals \<Rightarrow> filesystem \<Rightarrow> py_error + custom_radical list" where
  "derive g fs =
     (case load_radicals_214 fs of
        Inl e \<Rightarrow> Inl e
      | Inr radicals_214 \<Rightarrow>
         (case extract_radicals_from_vocab fs of
            Inl e \<Rightarrow> Inl e
          | Inr (radical_usage, vocab_lookup) \<Rightarrow>
              Inr (sort_radicals
                     (build_custom_radicals g radicals_214 radical_usage vocab_lookup))))"

definition build_main :: "globals \<Rightarrow> filesystem \<Rightarrow> py_error option \<times> filesystem" where
  "build_main g fs =
     (case derive g fs of
        Inl e \<Rightarrow> (Some e, fs)
      | Inr sorted_radicals \<Rightarrow> (None, write_radicals_csv sorted_radicals fs))"

section \<open>\<open>verify_radicals.py\<close>\<close>

text \<open>
  The entries of the lists \<open>errors\<close> and \<open>warnings\<close>. The two findings of the alignment
  check carry the level and the set \<open>missing_radicals\<close> or \<open>wrong_level_radicals\<close>.
\<close>

datatype verify_error =
    Radicals214NotFound
  | TooFewUnique nat
  | RadicalsCsvNotFound
  | MissingColumns "string list"
  | NotInRadicalsCsv pystr "pystr set"
  | LevelNotListed pystr "pystr set"

datatype verify_warning =
    UnexpectedEntryCount nat
  | LevelFileNotFound pystr

record report =
  errors :: "verify_error list"
  warnings :: "verify_warning list"

text \<open>\<open>row.get(column, '')\<close>\<close>

definition row_get :: "csv_row \<Rightarrow> string \<Rightarrow> pystr" where
  "row_get row column = (case dict_get row column of None \<Rightarrow> [] | Some v \<Rightarrow> v)"

text \<open>Check 1: \<open>radicals_214.csv\<close> exists and has at least 213 distinct glyphs.\<close>

definition check_214 :: "filesystem \<Rightarrow> report \<Rightarrow> py_error + report" where
  "check_214 fs rep =
     (if \<not> path_exists (radicals_214_csv fs)
      then Inr (rep\<lparr>errors := errors rep @ [Radicals214NotFound]\<rparr>)
      else (case open_read (radicals_214_csv fs) of
              Inl e \<Rightarrow> Inl e
            | Inr rows \<Rightarrow>
                (let unique = length (remdups (map k_Radical rows));
                     rep1 = (if length rows \<noteq> 214
                             then rep\<lparr>warnings := warnings rep @ [UnexpectedEntryCount (length rows)]\<rparr>
                             else rep)
                 in Inr (if unique < 213
                         then rep1\<lparr>errors := errors rep1 @ [TooFewUnique unique]\<rparr>
                         else rep1))))"

text \<open>
  Check 2: \<open>radicals.csv\<close> exists and its first row has the required columns. The
  counts by set and by level are printed only.
\<close>

definition required_cols :: "string list" where
  "required_cols = [''Radical'', ''Pinyin'', ''Set'', ''Levels'']"

definition check_radicals_csv :: "filesystem \<Rightarrow> report \<Rightarrow> py_error + report" where
  "check_radicals_csv fs rep =
     (if \<not> path_exists (radicals_csv fs)
      then Inr (rep\<lparr>errors := errors rep @ [RadicalsCsvNotFound]\<rparr>)
      else (case open_read (radicals_csv fs) of
              Inl e \<Rightarrow> Inl e
            | Inr rows \<Rightarrow>
                (case rows of
                   [] \<Rightarrow> Inr rep
                 | row0 # _ \<Rightarrow>
                     (let missing = filter (\<lambda>c. \<not> dict_in c row0) required_cols
                      in Inr (if missing \<noteq> []
                              then rep\<lparr>errors := errors rep @ [MissingColumns missing]\<rparr>
                              else rep)))))"

text \<open>
  Check 3 first loads \<open>radicals_map\<close>, opening \<open>radicals.csv\<close> whether or not it exists;
  \<open>row['Radical']\<close> raises \<open>KeyError\<close> on a row without that column.
\<close>

fun load_radicals_map ::
  "(pystr, csv_row) dict \<Rightarrow> csv_row list \<Rightarrow> py_error + (pystr, csv_row) dict" where
  "load_radicals_map radicals_map [] = Inr radicals_map"
| "load_radicals_map radicals_map (row # rows) =
     (case dict_get row ''Radical'' of
        None \<Rightarrow> Inl (KeyError ''Radical'')
      | Some rad \<Rightarrow> load_radicals_map (dict_set radicals_map rad row) rows)"

text \<open>
  The state of the loop over one level file:
  \<open>(missing_radicals, wrong_level_radicals, total_radicals)\<close>.
\<close>

type_synonym level_state = "pystr set \<times> pystr set \<times> int"

text \<open>The body of \<open>for rad in radicals_str.split('+')\<close> in the verifier.\<close>

definition check_component ::
  "(pystr, csv_row) dict \<Rightarrow> pystr \<Rightarrow> level_state \<Rightarrow> pystr \<Rightarrow> level_state" where
  "check_component radicals_map level st rad0 =
     (let rad = strip rad0
      in if rad = [] then st
         else (case st of (missing_radicals, wrong_level_radicals, total_radicals) \<Rightarrow>
                 (case dict_get radicals_map rad of
                    None \<Rightarrow> (insert rad missing_radicals, wrong_level_radicals, total_radicals + 1)
                  | Some row \<Rightarrow>
                      if \<not> str_contains (row_get row ''Levels'') level
                      then (missing_radicals, insert rad wrong_level_radicals, total_radicals + 1)
                      else (missing_radicals, wrong_level_radicals, total_radicals + 1))))"

definition check_row ::
  "(pystr, csv_row) dict \<Rightarrow> pystr \<Rightarrow> level_state \<Rightarrow> vocab_row \<Rightarrow> level_state" where
  "check_row radicals_map level st row =
     (let radicals_str = v_Radicals row
      in if radicals_str = [] then st
         else foldl (check_component radicals_map level) st (split 43 radicals_str))"

definition check_rows ::
  "(pystr, csv_row) dict \<Rightarrow> pystr \<Rightarrow> vocab_row list \<Rightarrow> level_state" where
  "check_rows radicals_map level rows = foldl (check_row radicals_map level) ({}, {}, 0) rows"

text \<open>
  The body of \<open>for level in ['basic', 'intermediate', 'advanced']\<close>: a missing level file
  is a warning; the two sets, when not empty, are one error each.
\<close>

definition check_level ::
  "filesystem \<Rightarrow> (pystr, csv_row) dict \<Rightarrow> report \<Rightarrow> pystr \<Rightarrow> py_error + report" where
  "check_level fs radicals_map rep level =
     (if \<not> path_exists (vocab_csv fs level)
      then Inr (rep\<lparr>warnings := warnings rep @ [LevelFileNotFound level]\<rparr>)
      else (case open_read (vocab_csv fs level) of
              Inl e \<Rightarrow> Inl e
            | Inr rows \<Rightarrow>
                (case check_rows radicals_map level rows of
                   (missing_radicals, wrong_level_radicals, total_radicals) \<Rightarrow>
                     (let rep1 = (if missing_radicals \<noteq> {}
                                  then rep\<lparr>errors := errors rep @ [NotInRadicalsCsv level missing_radicals]\<rparr>
                                  else rep)
                      in Inr (if wrong_level_radicals \<noteq> {}
                              then rep1\<lparr>errors := errors rep1 @ [LevelNotListed level wrong_level_radicals]\<rparr>
                              else rep1)))))"

fun check_levels ::
  "filesystem \<Rightarrow> (pystr, csv_row) dict \<Rightarrow> report \<Rightarrow> pystr list \<Rightarrow> py_error + report" where
  "check_levels fs radicals_map rep [] = Inr rep"
| "check_levels fs radicals_map rep (level # ls) =
     (case check_level fs radicals_map rep level of
        Inl e \<Rightarrow> Inl e
      | Inr rep' \<Rightarrow> check_levels fs radicals_map rep' ls)"

text \<open>
  \<open>main\<close> of the verifier up to the summary: the exception that ended the run, or the two
  lists.
\<close>

definition verify_checks :: "filesystem \<Rightarrow> py_error + report" where
  "verify_checks fs =
     (case check_214 fs \<lparr>errors = [], warnings = []\<rparr> of
        Inl e \<Rightarrow> Inl e
      | Inr rep1 \<Rightarrow>
         (case check_radicals_csv fs rep1 of
            Inl e \<Rightarrow> Inl e
          | Inr rep2 \<Rightarrow>
             (case open_read (radicals_csv fs) of
                Inl e \<Rightarrow> Inl e
              | Inr rows \<Rightarrow>
                 (case load_radicals_map [] rows of
                    Inl e \<Rightarrow> Inl e
                  | Inr radicals_map \<Rightarrow> check_levels fs radicals_map rep2 level_names))))"

text \<open>The summary: \<open>main\<close> returns 1 when \<open>errors\<close> is not empty and 0 otherwise.\<close>

definition verify_main :: "filesystem \<Rightarrow> py_error + int" where
  "verify_main fs =
     (case verify_checks fs of
        Inl e \<Rightarrow> Inl e
      | Inr rep \<Rightarrow> Inr (if errors rep \<noteq> [] then 1 else 0))"

text \<open>
  The two sets that the alignment check ends with for one level, when \<open>radicals.csv\<close>
  and the level file can be read: \<open>(missing_radicals, wrong_level_radicals)\<close>.
\<close>

definition level_findings :: "filesystem \<Rightarrow> pystr \<Rightarrow> (pystr set \<times> pystr set) option" where
  "level_findings fs level =
     (case radicals_csv fs of
        Readable written \<Rightarrow>
          (case load_radicals_map [] written of
             Inr radicals_map \<Rightarrow>
               (case vocab_csv fs level of
                  Readable rows \<Rightarrow>
                    (case check_rows radicals_map level rows of
                       (missing_radicals, wrong_level_radicals, total_radicals) \<Rightarrow>
                         Some (missing_radicals, wrong_level_radicals))
                | _ \<Rightarrow> None)
           | Inl e \<Rightarrow> None)
      | _ \<Rightarrow> None)"

text \<open>
  The test of the verifier on a glyph that has a row in \<open>radicals_map\<close>: the level name
  does not occur in the levels field of the row.
\<close>

definition wrong_level :: "(pystr, csv_row) dict \<Rightarrow> pystr \<Rightarrow> pystr \<Rightarrow> bool" where
  "wrong_level m level g =
     (case dict_get m g of
        None \<Rightarrow> False
      | Some row \<Rightarrow> \<not> str_contains (row_get row ''Levels'') level)"

text \<open>
  The conditions under which checks 1 and 2 add nothing to \<open>errors\<close>:
  \<open>radicals_214.csv\<close> can be read and has at least 213 different glyphs; \<open>radicals.csv\<close>
  can be read and its first row, if there is one, has the four required columns.
\<close>

definition ok_214 :: "filesystem \<Rightarrow> bool" where
  "ok_214 fs \<longleftrightarrow>
     (\<exists>krows. radicals_214_csv fs = Readable krows
        \<and> 213 \<le> length (remdups (map k_Radical krows)))"

definition ok_columns :: "filesystem \<Rightarrow> bool" where
  "ok_columns fs \<longleftrightarrow>
     (\<exists>written. radicals_csv fs = Readable written
        \<and> (written \<noteq> [] \<longrightarrow> (\<forall>c\<in>set required_cols. dict_in c (hd written))))"

text \<open>The alignment check of a level whose file can be read ends with both sets empty.\<close>

definition level_clean :: "filesystem \<Rightarrow> (pystr, csv_row) dict \<Rightarrow> pystr \<Rightarrow> bool" where
  "level_clean fs m l \<longleftrightarrow>
     (\<forall>rows. vocab_csv fs l = Readable rows \<longrightarrow>
        fst (check_rows m l rows) = {} \<and> fst (snd (check_rows m l rows)) = {})"

section \<open>The uses of glyphs in the vocabulary\<close>

text \<open>
  The glyphs of a decomposition string: its \<open>+\<close>-separated components, stripped, the
  empty ones left out. A use is a triple (level, word, glyph), one for each occurrence of a
  glyph in the decomposition of a word, in the order in which the files are read; a level
  whose file is missing has no uses.
\<close>

definition glyphs_of :: "pystr \<Rightarrow> pystr list" where
  "glyphs_of radicals_str = filter (\<lambda>rad. rad \<noteq> []) (map strip (split 43 radicals_str))"

type_synonym glyph_use = "pystr \<times> pystr \<times> pystr"

definition row_uses :: "pystr \<Rightarrow> vocab_row \<Rightarrow> glyph_use list" where
  "row_uses level row = map (\<lambda>rad. (level, v_Word row, rad)) (glyphs_of (v_Radicals row))"

definition rows_uses :: "pystr \<Rightarrow> vocab_row list \<Rightarrow> glyph_use list" where
  "rows_uses level rows = concat (map (row_uses level) rows)"

definition level_uses :: "filesystem \<Rightarrow> pystr \<Rightarrow> glyph_use list" where
  "level_uses fs level =
     (case vocab_csv fs level of Readable rows \<Rightarrow> rows_uses level rows | _ \<Rightarrow> [])"

definition vocab_uses :: "filesystem \<Rightarrow> glyph_use list" where
  "vocab_uses fs = concat (map (level_uses fs) level_names)"

definition uses_of :: "pystr \<Rightarrow> glyph_use list \<Rightarrow> glyph_use list" where
  "uses_of g uses = filter (\<lambda>use. snd (snd use) = g) uses"

definition used_glyphs :: "filesystem \<Rightarrow> pystr set" where
  "used_glyphs fs = set (map (\<lambda>use. snd (snd use)) (vocab_uses fs))"

text \<open>The updates of \<open>radical_usage\<close> for a list of uses, one after the other.\<close>

definition apply_uses :: "(pystr, usage) dict \<Rightarrow> glyph_use list \<Rightarrow> (pystr, usage) dict" where
  "apply_uses radical_usage uses =
     foldl (\<lambda>ru use. use_radical (fst use) (fst (snd use)) ru (snd (snd use))) radical_usage uses"

definition usage_after :: "usage \<Rightarrow> glyph_use list \<Rightarrow> usage" where
  "usage_after u uses = foldl (\<lambda>u use. record_use (fst use) (fst (snd use)) u) u uses"

section \<open>Concrete inputs\<close>

text \<open>
  The end-to-end scenario: the canonical table has the one row of U+6C14 (reading
  \<open>q\<close>, U+00EC); \<open>basic.csv\<close> has the one word U+6C7D U+8F66 with the decomposition
  U+6C35 \<open>+\<close> U+6C14 \<open>+\<close> U+8F66 and the two other level files have no rows; the variant
  table maps U+6C35 to U+6C34; the component table gives U+8F66 the reading \<open>ch\<close>, U+0113
  and the meaning \<open>vehicle\<close>.
\<close>

definition qi_row :: radicals_214_row where
  "qi_row = \<lparr>k_Radical = [27668], k_Pinyin = [113, 236],
             k_Description = ascii ''steam/air radical'', k_Meaning = ascii ''air''\<rparr>"

definition qiche_row :: vocab_row where
  "qiche_row = \<lparr>v_Word = [27773, 36710], v_Pinyin = [], v_English = [],
                v_Radicals = [27701, 43, 27668, 43, 36710]\<rparr>"

definition scenario_globals :: globals where
  "scenario_globals =
     \<lparr>TRADITIONAL_FORMS = traditional_forms,
      VARIANT_TO_MAIN = [([27701], [27700])],
      COMMON_COMPONENTS = [([36710], [99, 104, 275], ascii ''vehicle'')]\<rparr>"

definition scenario_fs :: filesystem where
  "scenario_fs =
     \<lparr>radicals_214_csv = Readable [qi_row], basic_csv = Readable [qiche_row],
      intermediate_csv = Readable [], advanced_csv = Readable [], radicals_csv = Missing\<rparr>"

definition qi_entry :: custom_radical where
  "qi_entry =
     \<lparr>Radical = [27668], Pinyin = [113, 236], Description = ascii ''steam/air radical'',
      Meaning = ascii ''air'', Set = kangxi_214, Levels = basic, UsageCount = 1,
      Traditional = [27668], MainRadical = None\<rparr>"

definition shui_entry :: custom_radical where
  "shui_entry =
     \<lparr>Radical = [27701], Pinyin = [],
      Description = ascii ''variant of '' @ [27700],
      Meaning = ascii ''component form'', Set = variant, Levels = basic, UsageCount = 1,
      Traditional = [27701], MainRadical = Some [27700]\<rparr>"

definition che_entry :: custom_radical where
  "che_entry =
     \<lparr>Radical = [36710], Pinyin = [99, 104, 275],
      Description = ascii ''common character component'',
      Meaning = ascii ''vehicle'', Set = component, Levels = basic, UsageCount = 1,
      Traditional = [36710], MainRadical = None\<rparr>"

definition scenario_table :: "custom_radical list" where
  "scenario_table = [qi_entry, shui_entry, che_entry]"

text \<open>
  A canonical table with two rows for U+6597, read \<open>d\<close>, U+01D2, \<open>u\<close> in the first and
  \<open>d\<close>, U+00F2, \<open>u\<close> in the second, and a vocabulary that uses the glyph once.
\<close>

definition dou_first :: radicals_214_row where
  "dou_first = \<lparr>k_Radical = [26007], k_Pinyin = [100, 466, 117],
                k_Description = ascii ''dipper radical'', k_Meaning = ascii ''dipper''\<rparr>"

definition dou_second :: radicals_214_row where
  "dou_second = \<lparr>k_Radical = [26007], k_Pinyin = [100, 242, 117],
                 k_Description = ascii ''fight'', k_Meaning = ascii ''to fight''\<rparr>"

definition dou_fs :: filesystem where
  "dou_fs =
     \<lparr>radicals_214_csv = Readable [qi_row, dou_first, dou_second],
      basic_csv = Readable [\<lparr>v_Word = [26007], v_Pinyin = [100, 466, 117],
                             v_English = ascii ''dipper'', v_Radicals = [26007]\<rparr>],
      intermediate_csv = Missing, advanced_csv = Missing, radicals_csv = Missing\<rparr>"

text \<open>
  A table with the two canonical glyphs U+6C34 and U+6C14, in that order, and a vocabulary
  whose first use of a canonical glyph comes after the use of a variant: the order of
  \<open>radical_usage\<close> is not the sorted order. \<open>order_table\<close> is the derived table under
  the tables of the module.
\<close>

definition shui_row :: radicals_214_row where
  "shui_row = \<lparr>k_Radical = [27700], k_Pinyin = [115, 104, 117, 464],
               k_Description = ascii ''water radical'', k_Meaning = ascii ''water''\<rparr>"

definition order_fs :: filesystem where
  "order_fs =
     \<lparr>radicals_214_csv = Readable [shui_row, qi_row], basic_csv = Readable [qiche_row],
      intermediate_csv =
        Readable [\<lparr>v_Word = [27700], v_Pinyin = [115, 104, 117, 464],
                   v_English = ascii ''water'', v_Radicals = [27700]\<rparr>],
      advanced_csv = Missing, radicals_csv = Missing\<rparr>"

definition water_entry :: custom_radical where
  "water_entry =
     \<lparr>Radical = [27700], Pinyin = [115, 104, 117, 464],
      Description = ascii ''water radical'', Meaning = ascii ''water'', Set = kangxi_214,
      Levels = intermediate, UsageCount = 1, Traditional = [27700], MainRadical = None\<rparr>"

definition water_side_entry :: custom_radical where
  "water_side_entry =
     \<lparr>Radical = [27701], Pinyin = [115, 104, 117, 464],
      Description = ascii ''water radical (variant form)'',
      Meaning = ascii ''water (component form)'', Set = variant,
      Levels = basic, UsageCount = 1, Traditional = [27701], MainRadical = Some [27700]\<rparr>"

definition car_entry :: custom_radical where
  "car_entry =
     \<lparr>Radical = [36710], Pinyin = [99, 104, 275],
      Description = ascii ''common character component'',
      Meaning = ascii ''car; vehicle'', Set = component,
      Levels = basic, UsageCount = 1, Traditional = [36710], MainRadical = None\<rparr>"

definition order_table :: "custom_radical list" where
  "order_table = [qi_entry, water_entry, water_side_entry, car_entry]"

text \<open>
  A canonical table that has a row for U+6C35, a glyph that is also a key of
  \<open>VARIANT_TO_MAIN\<close> in the module.
\<close>

definition side_row :: radicals_214_row where
  "side_row = \<lparr>k_Radical = [27701], k_Pinyin = [115, 104, 117, 464],
               k_Description = ascii ''water side form'', k_Meaning = ascii ''water''\<rparr>"

definition both_fs :: filesystem where
  "both_fs =
     \<lparr>radicals_214_csv = Readable [side_row], basic_csv = Readable [qiche_row],
      intermediate_csv = Missing, advanced_csv = Missing, radicals_csv = Missing\<rparr>"

definition side_entry :: custom_radical where
  "side_entry =
     \<lparr>Radical = [27701], Pinyin = [115, 104, 117, 464],
      Description = ascii ''water side form'', Meaning = ascii ''water'', Set = kangxi_214,
      Levels = basic, UsageCount = 1, Traditional = [27701], MainRadical = None\<rparr>"

definition plain_entry :: custom_radical where
  "plain_entry =
     \<lparr>Radical = [27668], Pinyin = [], Description = ascii ''word component'',
      Meaning = ascii ''character component (not official radical)'', Set = component,
      Levels = basic, UsageCount = 1, Traditional = [27668], MainRadical = None\<rparr>"

text \<open>
  A vocabulary in which one glyph, U+53E3, occurs seven times: three times in the
  decomposition of the word U+54C1 and four times in that of the word U+5668.
\<close>

definition kou_fs :: filesystem where
  "kou_fs =
     \<lparr>radicals_214_csv = Readable [],
      basic_csv =
        Readable [\<lparr>v_Word = [21697], v_Pinyin = [], v_English = ascii ''goods'',
                   v_Radicals = [21475, 43, 21475, 43, 21475]\<rparr>,
                  \<lparr>v_Word = [22120], v_Pinyin = [], v_English = ascii ''utensil'',
                   v_Radicals = [21475, 43, 21475, 43, 29356, 43, 21475, 43, 21475]\<rparr>],
      intermediate_csv = Missing, advanced_csv = Missing, radicals_csv = Missing\<rparr>"

text \<open>
  Files among which \<open>basic.csv\<close> and \<open>advanced.csv\<close> are missing, while
  \<open>intermediate.csv\<close> has one word, made of the canonical glyph U+6C14; and the files of
  the scenario without \<open>radicals_214.csv\<close>.
\<close>

definition skip_fs :: filesystem where
  "skip_fs =
     \<lparr>radicals_214_csv = Readable [qi_row], basic_csv = Missing,
      intermediate_csv =
        Readable [\<lparr>v_Word = [27668], v_Pinyin = [113, 236], v_English = ascii ''air'',
                   v_Radicals = [27668]\<rparr>],
      advanced_csv = Missing, radicals_csv = Missing\<rparr>"

definition skip_entry :: custom_radical where
  "skip_entry =
     \<lparr>Radical = [27668], Pinyin = [113, 236], Description = ascii ''steam/air radical'',
      Meaning = ascii ''air'', Set = kangxi_214, Levels = intermediate, UsageCount = 1,
      Traditional = [27668], MainRadical = None\<rparr>"

definition abort_fs :: filesystem where
  "abort_fs =
     \<lparr>radicals_214_csv = Missing, basic_csv = Readable [qiche_row],
      intermediate_csv = Readable [], advanced_csv = Readable [], radicals_csv = Missing\<rparr>"

text \<open>
  A canonical table of 214 rows with 214 different glyphs, from U+4E00 on; a vocabulary
  of one word, the glyph U+4E00 itself, at level \<open>basic\<close>, an empty
  \<open>intermediate.csv\<close> and no \<open>advanced.csv\<close>; and a \<open>radicals.csv\<close> with the one row of
  that glyph.
\<close>

definition kangxi_rows :: "radicals_214_row list" where
  "kangxi_rows =
     map (\<lambda>n. \<lparr>k_Radical = [19968 + n], k_Pinyin = [], k_Description = [],
                k_Meaning = []\<rparr>) [0..<214]"

definition yi_entry :: custom_radical where
  "yi_entry =
     \<lparr>Radical = [19968], Pinyin = [], Description = [], Meaning = [], Set = kangxi_214,
      Levels = basic, UsageCount = 1, Traditional = [19968], MainRadical = None\<rparr>"

definition pass_fs :: filesystem where
  "pass_fs =
     \<lparr>radicals_214_csv = Readable kangxi_rows,
      basic_csv = Readable [\<lparr>v_Word = [19968], v_Pinyin = [], v_English = [],
                             v_Radicals = [19968]\<rparr>],
      intermediate_csv = Readable [], advanced_csv = Missing,
      radicals_csv = Readable [csv_row_of yi_entry]\<rparr>"

text \<open>
  A row of \<open>intermediate.csv\<close> with the decomposition U+6C34 \<open>+\<close> U+6C14, checked
  against the written table of the scenario, which has no row for U+6C34 and lists U+6C14
  for \<open>basic\<close> only.
\<close>

definition water_air_row :: vocab_row where
  "water_air_row = \<lparr>v_Word = [27700, 27668], v_Pinyin = [], v_English = [],
                    v_Radicals = [27700, 43, 27668]\<rparr>"

definition written_map :: "(pystr, csv_row) dict" where
  "written_map =
     [([27668], csv_row_of qi_entry), ([27701], csv_row_of shui_entry),
      ([36710], csv_row_of che_entry)]"

section \<open>Properties of the dictionary operations and of the loops\<close>


lemma dict_get_dict_set:
  "dict_get (dict_set d k v) k' = (if k' = k then Some v else dict_get d k')"
  by (induction d) (auto simp: dict_get_def)

lemma keys_dict_set:
  "dict_keys (dict_set d k v) =
     (if k \<in> set (dict_keys d) then dict_keys d else dict_keys d @ [k])"
  unfolding dict_keys_def by (induction d) (auto simp: rev_image_eqI)

lemma dict_keys_Nil: "dict_keys [] = []"
  by (simp add: dict_keys_def)

lemma dict_in_keys: "dict_in k d \<longleftrightarrow> k \<in> set (dict_keys d)"
  by (simp add: dict_in_def dict_keys_def)

lemma dict_in_get: "dict_in k d \<longleftrightarrow> dict_get d k \<noteq> None"
  by (simp add: dict_in_def dict_get_def map_of_eq_None_iff)

lemma distinct_keys_dict_set:
  "distinct (dict_keys d) \<Longrightarrow> distinct (dict_keys (dict_set d k v))"
  by (simp add: keys_dict_set)

lemma load_row_get:
  "dict_get (load_row acc row) g =
     (case dict_get acc g of Some v \<Rightarrow> Some v
      | None \<Rightarrow> if k_Radical row = g then Some (info_of_row row) else None)"
  by (auto simp: load_row_def Let_def dict_in_get dict_get_dict_set split: option.splits)

lemma foldl_load_row_get:
  "dict_get (foldl load_row acc rows) g =
     (case dict_get acc g of Some v \<Rightarrow> Some v
      | None \<Rightarrow> map_option info_of_row (find (\<lambda>r. k_Radical r = g) rows))"
  by (induction rows arbitrary: acc) (auto simp: load_row_get split: option.splits)

lemma load_rows_get:
  "dict_get (load_rows rows) g = map_option info_of_row (find (\<lambda>r. k_Radical r = g) rows)"
proof -
  have "dict_get ([] :: (pystr, radical_info) dict) g = None" by (simp add: dict_get_def)
  then show ?thesis by (simp add: load_rows_def foldl_load_row_get)
qed

lemma load_rows_entry:
  assumes "dict_get (load_rows rows) k = Some v"
  shows "Radical v = k \<and> Set v = kangxi_214"
proof -
  from assms obtain r where r: "find (\<lambda>r. k_Radical r = k) rows = Some r" and v: "v = info_of_row r"
    by (auto simp: load_rows_get)
  from r have "k_Radical r = k" by (auto simp: find_Some_iff)
  with v show ?thesis by (simp add: info_of_row_def)
qed

lemma set_sort_radicals: "set (sort_radicals rs) = set rs"
  by (simp add: sort_radicals_def)

lemma Radical_custom_entry:
  assumes "\<And>v. dict_get t rad = Some v \<Longrightarrow> Radical v = rad"
  shows "Radical (custom_entry G t vl rad u) = rad"
  using assms by (auto simp: custom_entry_def Let_def split: option.splits prod.splits)

lemma foldl_scan_component:
  "foldl (scan_component level word) ru comps =
     apply_uses ru (map (\<lambda>rad. (level, word, rad)) (filter (\<lambda>rad. rad \<noteq> []) (map strip comps)))"
  by (induction comps arbitrary: ru) (auto simp: scan_component_def Let_def apply_uses_def)

lemma glyphs_of_Nil: "glyphs_of [] = []"
  by (simp add: glyphs_of_def strip_def)

lemma fst_scan_row: "fst (scan_row level st row) = apply_uses (fst st) (row_uses level row)"
proof (cases "v_Radicals row = []")
  case True
  then show ?thesis
    by (simp add: scan_row_def Let_def row_uses_def glyphs_of_Nil apply_uses_def)
next
  case False
  then show ?thesis
    by (simp add: scan_row_def Let_def foldl_scan_component row_uses_def glyphs_of_def)
qed

lemma apply_uses_append: "apply_uses ru (a @ b) = apply_uses (apply_uses ru a) b"
  by (simp add: apply_uses_def)

lemma fst_foldl_scan_row:
  "fst (foldl (scan_row level) st rows) = apply_uses (fst st) (rows_uses level rows)"
proof (induction rows arbitrary: st)
  case Nil
  show ?case by (simp add: rows_uses_def apply_uses_def)
next
  case (Cons row rows)
  show ?case
    using Cons.IH [of "scan_row level st row"]
    by (simp add: rows_uses_def fst_scan_row apply_uses_append)
qed

lemma scan_level_uses:
  assumes "scan_level fs st level = Inr st'"
  shows "fst st' = apply_uses (fst st) (level_uses fs level) \<and> vocab_csv fs level \<noteq> Unreadable"
  using assms
  by (cases "vocab_csv fs level")
     (auto simp: scan_level_def path_exists_def open_read_def level_uses_def
        fst_foldl_scan_row apply_uses_def)

lemma scan_levels_uses:
  assumes "scan_levels fs st ls = Inr st'"
  shows "fst st' = apply_uses (fst st) (concat (map (level_uses fs) ls))
         \<and> (\<forall>l\<in>set ls. vocab_csv fs l \<noteq> Unreadable)"
  using assms
proof (induction ls arbitrary: st)
  case Nil
  then show ?case by (simp add: apply_uses_def)
next
  case (Cons l ls)
  from Cons.prems obtain st1 where s1: "scan_level fs st l = Inr st1"
    and s2: "scan_levels fs st1 ls = Inr st'"
    by (auto split: sum.splits)
  from Cons.IH [OF s2] scan_level_uses [OF s1] show ?case
    by (simp add: apply_uses_append)
qed

lemma extract_uses:
  assumes "extract_radicals_from_vocab fs = Inr (ru, vl)"
  shows "ru = apply_uses [] (vocab_uses fs)"
  using scan_levels_uses [OF assms [unfolded extract_radicals_from_vocab_def]]
  by (simp add: vocab_uses_def)

lemma usage_after_Nil: "usage_after u [] = u"
  by (simp add: usage_after_def)

lemma apply_uses_Nil: "apply_uses ru [] = ru"
  by (simp add: apply_uses_def)

lemma usage_after_Cons:
  "usage_after u (use # uses) = usage_after (record_use (fst use) (fst (snd use)) u) uses"
  by (simp add: usage_after_def)

lemma count_usage_after: "count (usage_after u uses) = count u + int (length uses)"
  by (induction uses arbitrary: u) (simp_all add: usage_after_Cons record_use_def, simp add: usage_after_def)

lemma levels_usage_after: "levels (usage_after u uses) = levels u \<union> fst ` set uses"
  by (induction uses arbitrary: u) (simp_all add: usage_after_Cons record_use_def, simp add: usage_after_def)

lemma words_usage_after:
  "words (usage_after u uses) =
     words u @ take (5 - length (words u)) (map (\<lambda>use. fst (snd use)) uses)"
proof (induction uses arbitrary: u)
  case Nil
  show ?case by (simp add: usage_after_def)
next
  case (Cons use uses)
  show ?case
  proof (cases "length (words u) < 5")
    case True
    then have "5 - length (words u) = Suc (5 - Suc (length (words u)))" by simp
    with True show ?thesis
      by (simp add: usage_after_Cons Cons.IH record_use_def)
  next
    case False
    then show ?thesis
      by (simp add: usage_after_Cons Cons.IH record_use_def)
  qed
qed

lemma dict_get_use_radical:
  "dict_get (use_radical l w ru r) g =
     (if g = r
      then Some (record_use l w (case dict_get ru r of None \<Rightarrow> new_usage | Some u \<Rightarrow> u))
      else dict_get ru g)"
  by (simp add: use_radical_def dict_get_dict_set)

lemma apply_uses_Cons:
  "apply_uses ru (use # uses) =
     apply_uses (use_radical (fst use) (fst (snd use)) ru (snd (snd use))) uses"
  by (simp add: apply_uses_def)

lemma dict_get_apply_uses:
  "dict_get (apply_uses ru uses) g =
     (if uses_of g uses = [] then dict_get ru g
      else Some (usage_after (case dict_get ru g of None \<Rightarrow> new_usage | Some u \<Rightarrow> u)
                   (uses_of g uses)))"
proof (induction uses arbitrary: ru)
  case Nil
  show ?case by (simp add: apply_uses_def uses_of_def)
next
  case (Cons use uses)
  show ?case
    by (simp add: apply_uses_Cons Cons.IH dict_get_use_radical uses_of_def usage_after_Cons
        usage_after_Nil)
qed

lemma keys_use_radical:
  "dict_keys (use_radical l w ru r) =
     (if r \<in> set (dict_keys ru) then dict_keys ru else dict_keys ru @ [r])"
  by (simp add: use_radical_def keys_dict_set)

lemma set_keys_apply_uses:
  "set (dict_keys (apply_uses ru uses)) =
     set (dict_keys ru) \<union> (\<lambda>use. snd (snd use)) ` set uses"
proof (induction uses arbitrary: ru)
  case Nil
  show ?case by (simp add: apply_uses_Nil)
next
  case (Cons use uses)
  show ?case by (auto simp: apply_uses_Cons Cons.IH keys_use_radical)
qed

lemma distinct_keys_apply_uses:
  "distinct (dict_keys ru) \<Longrightarrow> distinct (dict_keys (apply_uses ru uses))"
proof (induction uses arbitrary: ru)
  case Nil
  then show ?case by (simp add: apply_uses_Nil)
next
  case (Cons use uses)
  show ?case
    by (simp add: apply_uses_Cons, rule Cons.IH) (simp add: keys_use_radical Cons.prems)
qed

lemma extract_get:
  assumes "extract_radicals_from_vocab fs = Inr (ru, vl)"
  shows "dict_get ru g =
     (if uses_of g (vocab_uses fs) = [] then None
      else Some (usage_after new_usage (uses_of g (vocab_uses fs))))"
proof -
  have "dict_get ([] :: (pystr, usage) dict) g = None" by (simp add: dict_get_def)
  then show ?thesis by (simp add: extract_uses [OF assms] dict_get_apply_uses)
qed

lemma extract_keys:
  assumes "extract_radicals_from_vocab fs = Inr (ru, vl)"
  shows "distinct (dict_keys ru) \<and> set (dict_keys ru) = used_glyphs fs"
  using distinct_keys_apply_uses [of "[]" "vocab_uses fs"]
  by (simp add: extract_uses [OF assms] set_keys_apply_uses used_glyphs_def dict_keys_Nil)


lemma derive_Inr:
  assumes "derive G fs = Inr out"
  shows "\<exists>rows ru vl. radicals_214_csv fs = Readable rows
           \<and> extract_radicals_from_vocab fs = Inr (ru, vl)
           \<and> out = sort_radicals (build_custom_radicals G (load_rows rows) ru vl)"
  using assms
  by (cases "radicals_214_csv fs")
     (auto simp: derive_def load_radicals_214_def open_read_def split: sum.splits)

lemma build_entry:
  assumes "e \<in> set (build_custom_radicals G (load_rows rows) ru vl)"
  shows "\<exists>u. (Radical e, u) \<in> set ru \<and> e = custom_entry G (load_rows rows) vl (Radical e) u"
proof -
  from assms obtain rad u where ru: "(rad, u) \<in> set ru"
    and e: "e = custom_entry G (load_rows rows) vl rad u"
    by (auto simp: build_custom_radicals_def)
  have "Radical e = rad"
    unfolding e by (rule Radical_custom_entry) (simp add: load_rows_entry)
  with ru e show ?thesis by auto
qed

lemma custom_entry_canonical:
  assumes "dict_get t rad = Some own"
  shows "custom_entry G t vl rad u =
     \<lparr>Radical = Radical own, Pinyin = Pinyin own, Description = Description own,
      Meaning = Meaning own, Set = Set own,
      Levels = joined_levels u, UsageCount = count u,
      Traditional = (case dict_get (TRADITIONAL_FORMS G) rad of
                       Some (trad, note) \<Rightarrow> trad | None \<Rightarrow> rad),
      MainRadical = None\<rparr>"
  using assms by (simp add: custom_entry_def)

lemma level_names_distinct:
  "basic \<noteq> intermediate" "basic \<noteq> advanced" "intermediate \<noteq> advanced"
  "intermediate \<noteq> basic" "advanced \<noteq> basic" "advanced \<noteq> intermediate"
  by (simp_all add: basic_def intermediate_def advanced_def ascii_def)

lemma vocab_csv_simps:
  "vocab_csv fs basic = basic_csv fs"
  "vocab_csv fs intermediate = intermediate_csv fs"
  "vocab_csv fs advanced = advanced_csv fs"
  by (simp_all add: vocab_csv_def level_names_distinct)

lemma strip_glyph: "\<not> py_isspace c \<Longrightarrow> strip [c] = [c]"
  by (simp add: strip_def)

lemma derive_eval:
  assumes "radicals_214_csv fs = Readable rows"
    and "extract_radicals_from_vocab fs = Inr (ru, vl)"
  shows "derive G fs = Inr (sort_radicals (build_custom_radicals G (load_rows rows) ru vl))"
  using assms by (simp add: derive_def load_radicals_214_def open_read_def)

section \<open>C5: the first of several rows of a glyph wins\<close>

text \<open>
  C5. When \<open>radicals_214.csv\<close> can be read, \<open>load_radicals_214\<close> raises nothing, and
  what it stores under a glyph are the fields of the first row of that glyph, however
  many later rows repeat the glyph. Hence every entry of the derived table for that glyph
  carries the reading, the description and the meaning of that first row.
\<close>

theorem first_occurrence_wins:
  assumes "radicals_214_csv fs = Readable rows"
    and "find (\<lambda>row. k_Radical row = g) rows = Some r"
  shows "load_radicals_214 fs = Inr (load_rows rows)
       \<and> dict_get (load_rows rows) g = Some (info_of_row r)
       \<and> (\<forall>out. derive G fs = Inr out \<longrightarrow>
            (\<forall>e\<in>set out. Radical e = g \<longrightarrow>
               Pinyin e = k_Pinyin r \<and> Description e = k_Description r
               \<and> Meaning e = k_Meaning r))"
proof -
  have load: "load_radicals_214 fs = Inr (load_rows rows)"
    using assms(1) by (simp add: load_radicals_214_def open_read_def)
  have get: "dict_get (load_rows rows) g = Some (info_of_row r)"
    using assms(2) by (simp add: load_rows_get)
  have "Pinyin e = k_Pinyin r \<and> Description e = k_Description r \<and> Meaning e = k_Meaning r"
    if out: "derive G fs = Inr out" and e: "e \<in> set out" and g: "Radical e = g" for out e
  proof -
    from derive_Inr [OF out] assms(1) obtain ru vl
      where "out = sort_radicals (build_custom_radicals G (load_rows rows) ru vl)"
      by auto
    with e have "e \<in> set (build_custom_radicals G (load_rows rows) ru vl)"
      by (simp add: set_sort_radicals)
    from build_entry [OF this] g obtain u
      where "e = custom_entry G (load_rows rows) vl g u" by auto
    then show ?thesis
      by (simp add: custom_entry_canonical [OF get] info_of_row_def)
  qed
  with load get show ?thesis by blast
qed

lemma dou_extract: "extract_radicals_from_vocab dou_fs =
   Inr ([([26007], \<lparr>count = 1, levels = {basic}, words = [[26007]]\<rparr>)],
        [([26007], [100, 466, 117], ascii ''dipper'')])"
  by (simp add: extract_radicals_from_vocab_def level_names_def scan_level_def vocab_csv_simps
      dou_fs_def path_exists_def open_read_def scan_row_def Let_def scan_component_def
      strip_def py_isspace_def use_radical_def dict_get_def dict_in_def record_use_def new_usage_def)

lemma dou_load: "load_rows [qi_row, dou_first, dou_second] =
   [([27668], info_of_row qi_row), ([26007], info_of_row dou_first)]"
  by (simp add: load_rows_def load_row_def Let_def dict_in_def qi_row_def dou_first_def dou_second_def)

lemma dou_derive: "derive module_globals dou_fs =
       Inr [\<lparr>Radical = [26007], Pinyin = [100, 466, 117],
             Description = ascii ''dipper radical'', Meaning = ascii ''dipper'',
             Set = kangxi_214, Levels = basic, UsageCount = 1,
             Traditional = [26007], MainRadical = None\<rparr>]"
proof -
  have r: "radicals_214_csv dou_fs = Readable [qi_row, dou_first, dou_second]"
    by (simp add: dou_fs_def)
  show ?thesis
    unfolding derive_eval [OF r dou_extract] dou_load
    by (simp add: build_custom_radicals_def custom_entry_def dict_get_def info_of_row_def
        dou_first_def qi_row_def joined_levels_def module_globals_def traditional_forms_def
        sort_radicals_def)
qed

theorem first_occurrence_wins_witness:
  "radicals_214_csv dou_fs = Readable [qi_row, dou_first, dou_second]
   \<and> find (\<lambda>row. k_Radical row = [26007]) [qi_row, dou_first, dou_second] = Some dou_first
   \<and> k_Pinyin dou_first \<noteq> k_Pinyin dou_second
   \<and> load_radicals_214 dou_fs = Inr (load_rows [qi_row, dou_first, dou_second])
   \<and> dict_get (load_rows [qi_row, dou_first, dou_second]) [26007] = Some (info_of_row dou_first)
   \<and> (\<exists>e. derive module_globals dou_fs = Inr [e] \<and> Radical e = [26007]
           \<and> Pinyin e = k_Pinyin dou_first)"
proof -
  have r: "radicals_214_csv dou_fs = Readable [qi_row, dou_first, dou_second]"
    by (simp add: dou_fs_def)
  have f: "find (\<lambda>row. k_Radical row = [26007]) [qi_row, dou_first, dou_second] = Some dou_first"
    by (simp add: qi_row_def dou_first_def)
  have p: "k_Pinyin dou_first \<noteq> k_Pinyin dou_second"
    by (simp add: dou_first_def dou_second_def)
  from first_occurrence_wins [OF r f, of module_globals] r f p dou_derive
  show ?thesis by simp
qed

section \<open>C1: the derived table has one entry for each glyph in use\<close>


lemma tags_distinct:
  "kangxi_214 \<noteq> variant" "kangxi_214 \<noteq> component" "variant \<noteq> component"
  "variant \<noteq> kangxi_214" "component \<noteq> kangxi_214" "component \<noteq> variant"
  by (simp_all add: kangxi_214_def variant_def component_def ascii_def)

lemma Set_custom_entry:
  "Set (custom_entry G (load_rows rows) vl rad u) =
     (if dict_in rad (load_rows rows) then kangxi_214
      else if dict_in rad (VARIANT_TO_MAIN G) then variant
      else component)"
  by (auto simp: custom_entry_def dict_in_get Let_def load_rows_entry
      split: option.splits prod.splits)

lemma map_Radical_build:
  "map Radical (build_custom_radicals G (load_rows rows) ru vl) = dict_keys ru"
proof -
  have "Radical (custom_entry G (load_rows rows) vl rad u) = rad" for rad u
    by (rule Radical_custom_entry) (simp add: load_rows_entry)
  then show ?thesis
    by (simp add: build_custom_radicals_def dict_keys_def split_def)
qed

lemma set_map_insort_key:
  "set (map f (insort_key k x xs)) = insert (f x) (set (map f xs))"
  by (induction xs) auto

lemma distinct_map_insort_key:
  "distinct (map f (insort_key k x xs)) \<longleftrightarrow> f x \<notin> set (map f xs) \<and> distinct (map f xs)"
  by (induction xs) (auto simp: set_map_insort_key [simplified])

lemma set_map_sort_key: "set (map f (sort_key k xs)) = set (map f xs)"
  by simp

lemma distinct_map_sort_key: "distinct (map f (sort_key k xs)) \<longleftrightarrow> distinct (map f xs)"
  by (induction xs) (simp_all add: distinct_map_insort_key)

lemma filter_key_once:
  "distinct (map f xs) \<Longrightarrow> g \<in> set (map f xs) \<Longrightarrow> length (filter (\<lambda>e. f e = g) xs) = 1"
proof (induction xs)
  case Nil
  then show ?case by simp
next
  case (Cons x xs)
  show ?case
  proof (cases "f x = g")
    case True
    with Cons.prems have "filter (\<lambda>e. f e = g) xs = []"
      by (auto simp: filter_empty_conv intro: rev_image_eqI)
    with True show ?thesis by simp
  next
    case False
    with Cons show ?thesis by auto
  qed
qed

lemma derive_keys:
  assumes "derive G fs = Inr out"
  shows "\<exists>ru vl. extract_radicals_from_vocab fs = Inr (ru, vl)
           \<and> distinct (map Radical out) \<and> set (map Radical out) = set (dict_keys ru)
           \<and> length out = length (dict_keys ru)"
proof -
  from derive_Inr [OF assms] obtain rows ru vl
    where ex: "extract_radicals_from_vocab fs = Inr (ru, vl)"
      and out: "out = sort_radicals (build_custom_radicals G (load_rows rows) ru vl)"
    by blast
  have d: "distinct (dict_keys ru)" using extract_keys [OF ex] by simp
  have "distinct (map Radical out)"
    unfolding out sort_radicals_def distinct_map_sort_key map_Radical_build by (rule d)
  moreover have "set (map Radical out) = set (dict_keys ru)"
    unfolding out sort_radicals_def set_map_sort_key map_Radical_build ..
  moreover have "length out = length (dict_keys ru)"
    unfolding out sort_radicals_def by (simp add: build_custom_radicals_def dict_keys_def)
  ultimately show ?thesis using ex by blast
qed

text \<open>
  C1. When the derivation returns a table, the glyphs of its entries are exactly the glyphs
  that occur in the decomposition of some word of some level: no glyph in use is left out,
  no entry has a glyph that is not in use, each glyph in use has exactly one entry, and
  the table has as many entries as \<open>radical_usage\<close> has distinct keys.
\<close>

theorem derived_keys:
  assumes "derive G fs = Inr out"
  shows "set (map Radical out) = used_glyphs fs
       \<and> distinct (map Radical out)
       \<and> (\<forall>g\<in>used_glyphs fs. length (filter (\<lambda>e. Radical e = g) out) = 1)
       \<and> (\<exists>ru vl. extract_radicals_from_vocab fs = Inr (ru, vl)
             \<and> length out = card (set (dict_keys ru)))"
proof -
  from derive_keys [OF assms] obtain ru vl
    where ex: "extract_radicals_from_vocab fs = Inr (ru, vl)"
      and d: "distinct (map Radical out)"
      and s: "set (map Radical out) = set (dict_keys ru)"
      and l: "length out = length (dict_keys ru)"
    by blast
  from extract_keys [OF ex] have dk: "distinct (dict_keys ru)"
    and sk: "set (dict_keys ru) = used_glyphs fs" by simp_all
  have once: "length (filter (\<lambda>e. Radical e = g) out) = 1" if "g \<in> used_glyphs fs" for g
    using that s sk d by (simp add: filter_key_once)
  from l dk have "length out = card (set (dict_keys ru))"
    by (simp add: distinct_card)
  with s sk d once ex show ?thesis by blast
qed

lemma scenario_glyphs: "glyphs_of [27701, 43, 27668, 43, 36710] = [[27701], [27668], [36710]]"
  by (simp add: glyphs_of_def strip_def py_isspace_def)

lemma scenario_uses:
  "vocab_uses scenario_fs =
     [(basic, [27773, 36710], [27701]), (basic, [27773, 36710], [27668]),
      (basic, [27773, 36710], [36710])]"
  by (simp add: vocab_uses_def level_names_def level_uses_def vocab_csv_simps scenario_fs_def
      rows_uses_def row_uses_def qiche_row_def scenario_glyphs)

lemma scenario_used: "used_glyphs scenario_fs = {[27701], [27668], [36710]}"
  by (simp add: used_glyphs_def scenario_uses)

lemma scenario_extract:
  "extract_radicals_from_vocab scenario_fs =
     Inr ([([27701], \<lparr>count = 1, levels = {basic}, words = [[27773, 36710]]\<rparr>),
           ([27668], \<lparr>count = 1, levels = {basic}, words = [[27773, 36710]]\<rparr>),
           ([36710], \<lparr>count = 1, levels = {basic}, words = [[27773, 36710]]\<rparr>)],
          [([27773, 36710], [], [])])"
  by (simp add: extract_radicals_from_vocab_def level_names_def scan_level_def vocab_csv_simps
      scenario_fs_def qiche_row_def path_exists_def open_read_def scan_row_def Let_def
      scan_component_def strip_def py_isspace_def use_radical_def dict_get_def dict_in_def
      record_use_def new_usage_def)

lemma scenario_load: "load_rows [qi_row] = [([27668], info_of_row qi_row)]"
  by (simp add: load_rows_def load_row_def Let_def dict_in_def qi_row_def)

lemma joined_levels_basic: "joined_levels \<lparr>count = n, levels = {basic}, words = ws\<rparr> = basic"
  by (simp add: joined_levels_def)

lemma scenario_build:
  "build_custom_radicals scenario_globals [([27668], info_of_row qi_row)]
     [([27701], \<lparr>count = 1, levels = {basic}, words = [[27773, 36710]]\<rparr>),
      ([27668], \<lparr>count = 1, levels = {basic}, words = [[27773, 36710]]\<rparr>),
      ([36710], \<lparr>count = 1, levels = {basic}, words = [[27773, 36710]]\<rparr>)]
     [([27773, 36710], [], [])] =
   [shui_entry, qi_entry, che_entry]"
  by (simp add: build_custom_radicals_def custom_entry_def dict_get_def info_of_row_def
      qi_row_def joined_levels_basic scenario_globals_def traditional_forms_def
      qi_entry_def shui_entry_def che_entry_def)

lemma scenario_keys:
  "radical_key qi_entry = (0, [27668])"
  "radical_key shui_entry = (1, [27701])"
  "radical_key che_entry = (2, [36710])"
  by (simp_all add: radical_key_def qi_entry_def shui_entry_def che_entry_def set_order_def
      dict_get_def tags_distinct)

lemma scenario_derive: "derive scenario_globals scenario_fs = Inr scenario_table"
proof -
  have r: "radicals_214_csv scenario_fs = Readable [qi_row]"
    by (simp add: scenario_fs_def)
  have "sort_radicals [shui_entry, qi_entry, che_entry]
          = scenario_table"
    by (simp add: sort_radicals_def scenario_keys scenario_table_def)
  then show ?thesis
    unfolding derive_eval [OF r scenario_extract] scenario_load scenario_build by simp
qed

theorem derived_keys_witness:
  "derive scenario_globals scenario_fs = Inr scenario_table
   \<and> used_glyphs scenario_fs = {[27701], [27668], [36710]}
   \<and> map Radical scenario_table = [[27668], [27701], [36710]]
   \<and> set (map Radical scenario_table) = used_glyphs scenario_fs
   \<and> distinct (map Radical scenario_table)
   \<and> length (filter (\<lambda>e. Radical e = [36710]) scenario_table) = 1
   \<and> (\<exists>ru vl. extract_radicals_from_vocab scenario_fs = Inr (ru, vl)
         \<and> length scenario_table = card (set (dict_keys ru)))"
proof -
  have "map Radical scenario_table = [[27668], [27701], [36710]]"
    by (simp add: scenario_table_def qi_entry_def shui_entry_def che_entry_def)
  with derived_keys [OF scenario_derive] scenario_derive scenario_used
  show ?thesis by simp
qed

section \<open>C7: every entry has exactly one of the three tags\<close>

lemma derive_entry:
  assumes "derive G fs = Inr out" and "e \<in> set out"
  shows "\<exists>rows ru vl u. radicals_214_csv fs = Readable rows
           \<and> extract_radicals_from_vocab fs = Inr (ru, vl)
           \<and> (Radical e, u) \<in> set ru
           \<and> e = custom_entry G (load_rows rows) vl (Radical e) u"
proof -
  from derive_Inr [OF assms(1)] obtain rows ru vl
    where r: "radicals_214_csv fs = Readable rows"
      and ex: "extract_radicals_from_vocab fs = Inr (ru, vl)"
      and out: "out = sort_radicals (build_custom_radicals G (load_rows rows) ru vl)"
    by blast
  from assms(2) out have "e \<in> set (build_custom_radicals G (load_rows rows) ru vl)"
    by (simp add: set_sort_radicals)
  from build_entry [OF this] r ex show ?thesis by blast
qed

text \<open>
  C7. Every entry of the derived table has in \<open>Set\<close> one of the three tags
  \<open>kangxi_214\<close> (the canonical class), \<open>variant\<close> and \<open>component\<close>, which are three
  different strings; which one is decided by the glyph alone: canonical when it is a key of
  the canonical table, variant when it is not but is a key of the variant table,
  component otherwise.
\<close>

theorem origin_tag:
  assumes "derive G fs = Inr out" and "e \<in> set out"
  shows "Set e \<in> {kangxi_214, variant, component}
       \<and> card {kangxi_214, variant, component} = 3
       \<and> (\<exists>rows. radicals_214_csv fs = Readable rows
            \<and> (Set e = kangxi_214 \<longleftrightarrow> dict_in (Radical e) (load_rows rows))
            \<and> (Set e = variant \<longleftrightarrow>
                  \<not> dict_in (Radical e) (load_rows rows)
                  \<and> dict_in (Radical e) (VARIANT_TO_MAIN G))
            \<and> (Set e = component \<longleftrightarrow>
                  \<not> dict_in (Radical e) (load_rows rows)
                  \<and> \<not> dict_in (Radical e) (VARIANT_TO_MAIN G)))"
proof -
  from derive_entry [OF assms] obtain rows vl u
    where r: "radicals_214_csv fs = Readable rows"
      and e: "e = custom_entry G (load_rows rows) vl (Radical e) u"
    by blast
  have tag: "Set e =
     (if dict_in (Radical e) (load_rows rows) then kangxi_214
      else if dict_in (Radical e) (VARIANT_TO_MAIN G) then variant
      else component)"
    by (subst e) (simp only: Set_custom_entry)
  have three: "card {kangxi_214, variant, component} = 3"
    by (simp add: tags_distinct)
  from tag have "Set e \<in> {kangxi_214, variant, component}" by simp
  moreover from tag have "Set e = kangxi_214 \<longleftrightarrow> dict_in (Radical e) (load_rows rows)"
    by (simp add: tags_distinct)
  moreover from tag have "Set e = variant \<longleftrightarrow>
      \<not> dict_in (Radical e) (load_rows rows) \<and> dict_in (Radical e) (VARIANT_TO_MAIN G)"
    by (simp add: tags_distinct)
  moreover from tag have "Set e = component \<longleftrightarrow>
      \<not> dict_in (Radical e) (load_rows rows) \<and> \<not> dict_in (Radical e) (VARIANT_TO_MAIN G)"
    by (simp add: tags_distinct)
  ultimately show ?thesis using three r by blast
qed

theorem origin_tag_witness:
  "derive scenario_globals scenario_fs = Inr scenario_table
   \<and> set scenario_table = {qi_entry, shui_entry, che_entry}
   \<and> Set qi_entry = kangxi_214 \<and> Set shui_entry = variant \<and> Set che_entry = component
   \<and> Set shui_entry \<in> {kangxi_214, variant, component}
   \<and> card {kangxi_214, variant, component} = 3"
proof -
  have m: "shui_entry \<in> set scenario_table" by (simp add: scenario_table_def)
  have "Set qi_entry = kangxi_214 \<and> Set shui_entry = variant \<and> Set che_entry = component"
    by (simp add: qi_entry_def shui_entry_def che_entry_def)
  with origin_tag [OF scenario_derive m] scenario_derive
  show ?thesis by (simp add: scenario_table_def)
qed

section \<open>C4: the derived table is sorted by tag, then by glyph\<close>

lemma derive_tag:
  assumes "derive G fs = Inr out" and "e \<in> set out"
  shows "Set e = kangxi_214 \<or> Set e = variant \<or> Set e = component"
proof -
  from derive_entry [OF assms] obtain rows vl u
    where e: "e = custom_entry G (load_rows rows) vl (Radical e) u"
    by blast
  show ?thesis by (subst e, subst (2) e, subst (3) e) (simp only: Set_custom_entry, simp)
qed

lemma radical_key_tags:
  "Set e = kangxi_214 \<Longrightarrow> radical_key e = (0, Radical e)"
  "Set e = variant \<Longrightarrow> radical_key e = (1, Radical e)"
  "Set e = component \<Longrightarrow> radical_key e = (2, Radical e)"
  by (simp_all add: radical_key_def set_order_def dict_get_def tags_distinct)

lemma distinct_radical_key:
  "distinct (map Radical xs) \<Longrightarrow> distinct (map radical_key xs)"
  by (induction xs) (auto simp: radical_key_def)

lemma sort_radicals_strict:
  assumes "distinct (map Radical xs)"
  shows "sorted_wrt (\<lambda>a b. radical_key a < radical_key b) (sort_radicals xs)"
proof -
  have "distinct (map Radical (sort_radicals xs))"
    using assms by (simp add: sort_radicals_def distinct_map_sort_key)
  then have "distinct (map radical_key (sort_radicals xs))"
    by (rule distinct_radical_key)
  moreover have "sorted (map radical_key (sort_radicals xs))"
    by (simp add: sort_radicals_def)
  ultimately have "sorted_wrt (<) (map radical_key (sort_radicals xs))"
    by (simp add: strict_sorted_iff)
  then show ?thesis by (simp add: sorted_wrt_map)
qed

text \<open>
  C4. The derived table is strictly increasing in the sort key (rank of the tag, glyph):
  of any two entries the earlier one is canonical when the later is a variant or a
  component, or a variant when the later is a component, or has the same tag and the
  smaller glyph in the order of the code points.
\<close>

theorem derived_sorted:
  assumes "derive G fs = Inr out"
  shows "sorted_wrt (\<lambda>a b. radical_key a < radical_key b) out
       \<and> sorted_wrt
           (\<lambda>a b. (Set a = kangxi_214 \<and> (Set b = variant \<or> Set b = component))
                 \<or> (Set a = variant \<and> Set b = component)
                 \<or> (Set a = Set b \<and> Radical a < Radical b)) out"
proof -
  from derive_Inr [OF assms] obtain rows ru vl
    where ex: "extract_radicals_from_vocab fs = Inr (ru, vl)"
      and out: "out = sort_radicals (build_custom_radicals G (load_rows rows) ru vl)"
    by blast
  have "distinct (map Radical (build_custom_radicals G (load_rows rows) ru vl))"
    using extract_keys [OF ex] by (simp add: map_Radical_build)
  then have strict: "sorted_wrt (\<lambda>a b. radical_key a < radical_key b) out"
    unfolding out by (rule sort_radicals_strict)
  have weaken: "(Set a = kangxi_214 \<and> (Set b = variant \<or> Set b = component))
          \<or> (Set a = variant \<and> Set b = component)
          \<or> (Set a = Set b \<and> Radical a < Radical b)"
    if a: "a \<in> set out" and b: "b \<in> set out" and lt: "radical_key a < radical_key b" for a b
    using derive_tag [OF assms a] derive_tag [OF assms b] lt
    by (auto simp: radical_key_tags)
  have "sorted_wrt
           (\<lambda>a b. (Set a = kangxi_214 \<and> (Set b = variant \<or> Set b = component))
                 \<or> (Set a = variant \<and> Set b = component)
                 \<or> (Set a = Set b \<and> Radical a < Radical b)) out"
    by (rule sorted_wrt_mono_rel [OF _ strict]) (rule weaken)
  with strict show ?thesis by simp
qed

lemma order_extract:
  "extract_radicals_from_vocab order_fs =
     Inr ([([27701], \<lparr>count = 1, levels = {basic}, words = [[27773, 36710]]\<rparr>),
           ([27668], \<lparr>count = 1, levels = {basic}, words = [[27773, 36710]]\<rparr>),
           ([36710], \<lparr>count = 1, levels = {basic}, words = [[27773, 36710]]\<rparr>),
           ([27700], \<lparr>count = 1, levels = {intermediate}, words = [[27700]]\<rparr>)],
          [([27773, 36710], [], []), ([27700], [115, 104, 117, 464], ascii ''water'')])"
  by (simp add: extract_radicals_from_vocab_def level_names_def scan_level_def vocab_csv_simps
      order_fs_def qiche_row_def path_exists_def open_read_def scan_row_def Let_def
      scan_component_def strip_def py_isspace_def use_radical_def dict_get_def dict_in_def
      record_use_def new_usage_def)

lemma order_load:
  "load_rows [shui_row, qi_row] = [([27700], info_of_row shui_row), ([27668], info_of_row qi_row)]"
  by (simp add: load_rows_def load_row_def Let_def dict_in_def qi_row_def shui_row_def)

lemma joined_levels_intermediate:
  "joined_levels \<lparr>count = n, levels = {intermediate}, words = ws\<rparr> = intermediate"
  by (simp add: joined_levels_def)

lemma che_common:
  "dict_get common_components [36710] = Some ([99, 104, 275], ascii ''car; vehicle'')"
  by (simp add: dict_get_def common_components_def)

lemma order_build:
  "build_custom_radicals module_globals
     [([27700], info_of_row shui_row), ([27668], info_of_row qi_row)]
     [([27701], \<lparr>count = 1, levels = {basic}, words = [[27773, 36710]]\<rparr>),
      ([27668], \<lparr>count = 1, levels = {basic}, words = [[27773, 36710]]\<rparr>),
      ([36710], \<lparr>count = 1, levels = {basic}, words = [[27773, 36710]]\<rparr>),
      ([27700], \<lparr>count = 1, levels = {intermediate}, words = [[27700]]\<rparr>)]
     [([27773, 36710], [], []), ([27700], [115, 104, 117, 464], ascii ''water'')] =
   [water_side_entry, qi_entry, car_entry, water_entry]"
proof -
  have t: "dict_get traditional_forms [27668] = None" "dict_get traditional_forms [27700] = None"
    by (simp_all add: dict_get_def traditional_forms_def)
  have v: "dict_get variant_to_main [27701] = Some [27700]"
    "dict_get variant_to_main [36710] = None"
    by (simp_all add: dict_get_def variant_to_main_def)
  have a: "ascii ''water radical'' @ ascii '' (variant form)'' = ascii ''water radical (variant form)''"
    "ascii ''water'' @ ascii '' (component form)'' = ascii ''water (component form)''"
    by (simp_all add: ascii_def)
  show ?thesis
    by (simp add: build_custom_radicals_def custom_entry_def module_globals_def t v a
        dict_get_def [of "[_, _]"] che_common info_of_row_def qi_row_def shui_row_def
        joined_levels_basic joined_levels_intermediate qi_entry_def water_entry_def
        water_side_entry_def car_entry_def)
qed

lemma order_keys:
  "radical_key qi_entry = (0, [27668])"
  "radical_key water_entry = (0, [27700])"
  "radical_key water_side_entry = (1, [27701])"
  "radical_key car_entry = (2, [36710])"
  by (simp_all add: radical_key_def qi_entry_def water_entry_def water_side_entry_def
      car_entry_def set_order_def dict_get_def tags_distinct)

lemma order_derive: "derive module_globals order_fs = Inr order_table"
proof -
  have r: "radicals_214_csv order_fs = Readable [shui_row, qi_row]"
    by (simp add: order_fs_def)
  have "sort_radicals [water_side_entry, qi_entry, car_entry, water_entry] = order_table"
    by (simp add: sort_radicals_def order_keys order_table_def)
  then show ?thesis
    unfolding derive_eval [OF r order_extract] order_load order_build by simp
qed

theorem derived_sorted_witness:
  "derive module_globals order_fs = Inr order_table
   \<and> map (\<lambda>e. (Set e, Radical e)) order_table =
       [(kangxi_214, [27668]), (kangxi_214, [27700]), (variant, [27701]), (component, [36710])]
   \<and> sorted_wrt (\<lambda>a b. radical_key a < radical_key b) order_table
   \<and> sorted_wrt
        (\<lambda>a b. (Set a = kangxi_214 \<and> (Set b = variant \<or> Set b = component))
              \<or> (Set a = variant \<and> Set b = component)
              \<or> (Set a = Set b \<and> Radical a < Radical b)) order_table"
proof -
  have "map (\<lambda>e. (Set e, Radical e)) order_table =
       [(kangxi_214, [27668]), (kangxi_214, [27700]), (variant, [27701]), (component, [36710])]"
    by (simp add: order_table_def qi_entry_def water_entry_def water_side_entry_def car_entry_def)
  with derived_sorted [OF order_derive] order_derive show ?thesis by simp
qed


section \<open>C2: the canonical table is consulted before the variant table\<close>

text \<open>
  C2. For a glyph that is a key of the loaded canonical table and a key of the variant
  table, the entry is canonical, not a variant: its tag is \<open>kangxi_214\<close>, its reading,
  description and meaning are those of the canonical record, and it has no main radical.
  The variant table is not consulted: the entry is the same whatever that table holds.
  The same holds of the entry of that glyph in the derived table.
\<close>

theorem canonical_precedence:
  assumes "load_radicals_214 fs = Inr t"
    and "dict_get t g = Some own"
    and "dict_in g (VARIANT_TO_MAIN G)"
  shows "Set (custom_entry G t vl g u) = kangxi_214
       \<and> Set (custom_entry G t vl g u) \<noteq> variant
       \<and> Pinyin (custom_entry G t vl g u) = Pinyin own
       \<and> Description (custom_entry G t vl g u) = Description own
       \<and> Meaning (custom_entry G t vl g u) = Meaning own
       \<and> MainRadical (custom_entry G t vl g u) = None
       \<and> (\<forall>V. custom_entry (G\<lparr>VARIANT_TO_MAIN := V\<rparr>) t vl g u = custom_entry G t vl g u)
       \<and> (\<forall>out. derive G fs = Inr out \<longrightarrow>
            (\<forall>e\<in>set out. Radical e = g \<longrightarrow>
               Set e = kangxi_214 \<and> Pinyin e = Pinyin own
               \<and> Description e = Description own \<and> Meaning e = Meaning own
               \<and> MainRadical e = None))"
proof -
  from assms(1) obtain rows where r: "radicals_214_csv fs = Readable rows"
    and t: "t = load_rows rows"
    by (cases "radicals_214_csv fs") (auto simp: load_radicals_214_def open_read_def)
  from assms(2) t have tag: "Set own = kangxi_214" by (simp add: load_rows_entry)
  note ce = custom_entry_canonical [OF assms(2)]
  have here: "Set (custom_entry G t vl g u) = kangxi_214
       \<and> Set (custom_entry G t vl g u) \<noteq> variant
       \<and> Pinyin (custom_entry G t vl g u) = Pinyin own
       \<and> Description (custom_entry G t vl g u) = Description own
       \<and> Meaning (custom_entry G t vl g u) = Meaning own
       \<and> MainRadical (custom_entry G t vl g u) = None" for vl u
    by (simp add: ce tag tags_distinct)
  have indep: "custom_entry (G\<lparr>VARIANT_TO_MAIN := V\<rparr>) t vl g u = custom_entry G t vl g u" for V
    by (simp add: ce)
  have table: "Set e = kangxi_214 \<and> Pinyin e = Pinyin own
               \<and> Description e = Description own \<and> Meaning e = Meaning own
               \<and> MainRadical e = None"
    if out: "derive G fs = Inr out" and e: "e \<in> set out" and g: "Radical e = g" for out e
  proof -
    from derive_entry [OF out e] r t g obtain vl' u'
      where "e = custom_entry G t vl' g u'" by auto
    with here [of vl' u'] show ?thesis by simp
  qed
  from here [of vl u] indep table show ?thesis by blast
qed

lemma both_extract:
  "extract_radicals_from_vocab both_fs =
     Inr ([([27701], \<lparr>count = 1, levels = {basic}, words = [[27773, 36710]]\<rparr>),
           ([27668], \<lparr>count = 1, levels = {basic}, words = [[27773, 36710]]\<rparr>),
           ([36710], \<lparr>count = 1, levels = {basic}, words = [[27773, 36710]]\<rparr>)],
          [([27773, 36710], [], [])])"
  by (simp add: extract_radicals_from_vocab_def level_names_def scan_level_def vocab_csv_simps
      both_fs_def qiche_row_def path_exists_def open_read_def scan_row_def Let_def
      scan_component_def strip_def py_isspace_def use_radical_def dict_get_def dict_in_def
      record_use_def new_usage_def)

lemma both_load: "load_rows [side_row] = [([27701], info_of_row side_row)]"
  by (simp add: load_rows_def load_row_def Let_def dict_in_def side_row_def)

lemma both_build:
  "build_custom_radicals module_globals [([27701], info_of_row side_row)]
     [([27701], \<lparr>count = 1, levels = {basic}, words = [[27773, 36710]]\<rparr>),
      ([27668], \<lparr>count = 1, levels = {basic}, words = [[27773, 36710]]\<rparr>),
      ([36710], \<lparr>count = 1, levels = {basic}, words = [[27773, 36710]]\<rparr>)]
     [([27773, 36710], [], [])] =
   [side_entry, plain_entry, car_entry]"
proof -
  have t: "dict_get traditional_forms [27701] = None"
    by (simp add: dict_get_def traditional_forms_def)
  have v: "dict_get variant_to_main [27668] = None" "dict_get variant_to_main [36710] = None"
    by (simp_all add: dict_get_def variant_to_main_def)
  have c: "dict_get common_components [27668] = None"
    by (simp add: dict_get_def common_components_def)
  show ?thesis
    by (simp add: build_custom_radicals_def custom_entry_def module_globals_def t v c
        dict_get_def [of "[_]"] che_common info_of_row_def side_row_def
        joined_levels_basic side_entry_def plain_entry_def car_entry_def)
qed

lemma both_keys:
  "radical_key side_entry = (0, [27701])"
  "radical_key plain_entry = (2, [27668])"
  by (simp_all add: radical_key_def side_entry_def plain_entry_def set_order_def
      dict_get_def tags_distinct)

lemma both_derive: "derive module_globals both_fs = Inr [side_entry, plain_entry, car_entry]"
proof -
  have r: "radicals_214_csv both_fs = Readable [side_row]"
    by (simp add: both_fs_def)
  have "sort_radicals [side_entry, plain_entry, car_entry] = [side_entry, plain_entry, car_entry]"
    by (simp add: sort_radicals_def both_keys order_keys)
  then show ?thesis
    unfolding derive_eval [OF r both_extract] both_load both_build by simp
qed

theorem canonical_precedence_witness:
  "load_radicals_214 both_fs = Inr [([27701], info_of_row side_row)]
   \<and> dict_get [([27701], info_of_row side_row)] [27701] = Some (info_of_row side_row)
   \<and> dict_in [27701] (VARIANT_TO_MAIN module_globals)
   \<and> derive module_globals both_fs = Inr [side_entry, plain_entry, car_entry]
   \<and> Radical side_entry = [27701] \<and> Set side_entry = kangxi_214
   \<and> Pinyin side_entry = k_Pinyin side_row \<and> MainRadical side_entry = None"
proof -
  have l: "load_radicals_214 both_fs = Inr [([27701], info_of_row side_row)]"
    by (simp add: load_radicals_214_def open_read_def both_fs_def both_load)
  have g: "dict_get [([27701], info_of_row side_row)] [27701] = Some (info_of_row side_row)"
    by (simp add: dict_get_def)
  have v: "dict_in [27701] (VARIANT_TO_MAIN module_globals)"
    by (simp add: dict_in_def module_globals_def variant_to_main_def)
  have "Radical side_entry = [27701]" by (simp add: side_entry_def)
  with canonical_precedence [OF l g v] l g v both_derive
  show ?thesis by (simp add: info_of_row_def)
qed

section \<open>C9: the count of a glyph is the number of its occurrences\<close>


lemma usage_after_new:
  "usage_after new_usage uses =
     \<lparr>count = int (length uses), levels = fst ` set uses,
      words = take 5 (map (\<lambda>use. fst (snd use)) uses)\<rparr>"
proof -
  have "count (usage_after new_usage uses) = int (length uses)"
    by (simp add: count_usage_after new_usage_def)
  moreover have "levels (usage_after new_usage uses) = fst ` set uses"
    by (simp add: levels_usage_after new_usage_def)
  moreover have "words (usage_after new_usage uses) = take 5 (map (\<lambda>use. fst (snd use)) uses)"
    by (simp add: words_usage_after new_usage_def)
  ultimately show ?thesis by simp
qed

text \<open>
  C9. After the extraction, a glyph that does not occur in any decomposition has no usage
  record, and the record of a glyph that occurs has: as count the number of its
  occurrences over all rows of all levels, each occurrence within one decomposition counted;
  as levels the levels of these occurrences; as words the words of the first five
  occurrences, in order, a word being repeated when the glyph occurs in it more than once.
\<close>

theorem usage_counts_occurrences:
  assumes "extract_radicals_from_vocab fs = Inr (ru, vl)"
  shows "dict_get ru g =
     (if uses_of g (vocab_uses fs) = [] then None
      else Some \<lparr>count = int (length (uses_of g (vocab_uses fs))),
                 levels = fst ` set (uses_of g (vocab_uses fs)),
                 words = take 5 (map (\<lambda>use. fst (snd use)) (uses_of g (vocab_uses fs)))\<rparr>)"
proof (cases "uses_of g (vocab_uses fs) = []")
  case True
  then show ?thesis by (simp add: extract_get [OF assms])
next
  case False
  then have "dict_get ru g = Some (usage_after new_usage (uses_of g (vocab_uses fs)))"
    by (simp add: extract_get [OF assms])
  with False show ?thesis by (simp add: usage_after_new)
qed

lemma kou_glyphs:
  "glyphs_of [21475, 43, 21475, 43, 21475] = [[21475], [21475], [21475]]"
  "glyphs_of [21475, 43, 21475, 43, 29356, 43, 21475, 43, 21475] =
     [[21475], [21475], [29356], [21475], [21475]]"
  by (simp_all add: glyphs_of_def strip_def py_isspace_def)

lemma kou_uses:
  "uses_of [21475] (vocab_uses kou_fs) =
     [(basic, [21697], [21475]), (basic, [21697], [21475]), (basic, [21697], [21475]),
      (basic, [22120], [21475]), (basic, [22120], [21475]), (basic, [22120], [21475]),
      (basic, [22120], [21475])]"
  by (simp add: vocab_uses_def level_names_def level_uses_def vocab_csv_simps kou_fs_def
      rows_uses_def row_uses_def kou_glyphs uses_of_def)

lemma record_use_eval:
  "record_use l w \<lparr>count = c, levels = L, words = ws\<rparr> =
     \<lparr>count = c + 1, levels = insert l L,
      words = (if int (length ws) < 5 then ws @ [w] else ws)\<rparr>"
  by (simp add: record_use_def)

lemma kou_extract:
  "extract_radicals_from_vocab kou_fs =
     Inr ([([21475], \<lparr>count = 7, levels = {basic},
                      words = [[21697], [21697], [21697], [22120], [22120]]\<rparr>),
           ([29356], \<lparr>count = 1, levels = {basic}, words = [[22120]]\<rparr>)],
          [([21697], [], ascii ''goods''), ([22120], [], ascii ''utensil'')])"
  by (simp add: extract_radicals_from_vocab_def level_names_def scan_level_def vocab_csv_simps
      kou_fs_def path_exists_def open_read_def scan_row_def Let_def
      scan_component_def strip_def py_isspace_def use_radical_def dict_get_def dict_in_def
      record_use_eval new_usage_def)

theorem usage_counts_occurrences_witness:
  "(\<exists>ru vl. extract_radicals_from_vocab kou_fs = Inr (ru, vl)
      \<and> dict_get ru [21475] =
          Some \<lparr>count = 7, levels = {basic},
                words = [[21697], [21697], [21697], [22120], [22120]]\<rparr>)
   \<and> length (uses_of [21475] (vocab_uses kou_fs)) = 7
   \<and> map (\<lambda>use. fst (snd use)) (uses_of [21475] (vocab_uses kou_fs)) =
       [[21697], [21697], [21697], [22120], [22120], [22120], [22120]]"
  using usage_counts_occurrences [OF kou_extract, of "[21475]"] kou_extract
  by (simp add: kou_uses)

section \<open>C10: the substring test on the levels field is set membership\<close>


lemma level_codes:
  "basic = [98, 97, 115, 105, 99]"
  "intermediate = [105, 110, 116, 101, 114, 109, 101, 100, 105, 97, 116, 101]"
  "advanced = [97, 100, 118, 97, 110, 99, 101, 100]"
  by (simp_all add: basic_def intermediate_def advanced_def ascii_def)

lemma comma_code: "ascii '','' = [44]"
  by (simp add: ascii_def)

lemma subset_of_levels:
  assumes "S \<subseteq> {basic, intermediate, advanced}"
  shows "S = {} \<or> S = {basic} \<or> S = {intermediate} \<or> S = {advanced}
       \<or> S = {basic, intermediate} \<or> S = {basic, advanced} \<or> S = {intermediate, advanced}
       \<or> S = {basic, intermediate, advanced}"
proof (cases "basic \<in> S")
  case b: True
  show ?thesis
  proof (cases "intermediate \<in> S")
    case i: True
    show ?thesis
    proof (cases "advanced \<in> S")
      case True
      with b i assms have "S = {basic, intermediate, advanced}" by blast
      then show ?thesis by simp
    next
      case False
      with b i assms have "S = {basic, intermediate}" by blast
      then show ?thesis by simp
    qed
  next
    case i: False
    show ?thesis
    proof (cases "advanced \<in> S")
      case True
      with b i assms have "S = {basic, advanced}" by blast
      then show ?thesis by simp
    next
      case False
      with b i assms have "S = {basic}" by blast
      then show ?thesis by simp
    qed
  qed
next
  case b: False
  show ?thesis
  proof (cases "intermediate \<in> S")
    case i: True
    show ?thesis
    proof (cases "advanced \<in> S")
      case True
      with b i assms have "S = {intermediate, advanced}" by blast
      then show ?thesis by simp
    next
      case False
      with b i assms have "S = {intermediate}" by blast
      then show ?thesis by simp
    qed
  next
    case i: False
    show ?thesis
    proof (cases "advanced \<in> S")
      case True
      with b i assms have "S = {advanced}" by blast
      then show ?thesis by simp
    next
      case False
      with b i assms have "S = {}" by blast
      then show ?thesis by simp
    qed
  qed
qed

lemma levels_substring_none:
  assumes "L = basic \<or> L = intermediate \<or> L = advanced"
  shows "str_contains (join (ascii '','') (sorted_list_of_set {})) L \<longleftrightarrow> L \<in> {}"
  using assms by (elim disjE) (simp_all add: level_codes comma_code)

lemma levels_substring_b:
  assumes "L = basic \<or> L = intermediate \<or> L = advanced"
  shows "str_contains (join (ascii '','') (sorted_list_of_set {basic})) L \<longleftrightarrow> L \<in> {basic}"
  using assms by (elim disjE) (simp_all add: level_codes comma_code)

lemma levels_substring_i:
  assumes "L = basic \<or> L = intermediate \<or> L = advanced"
  shows "str_contains (join (ascii '','') (sorted_list_of_set {intermediate})) L \<longleftrightarrow> L \<in> {intermediate}"
  using assms by (elim disjE) (simp_all add: level_codes comma_code)

lemma levels_substring_a:
  assumes "L = basic \<or> L = intermediate \<or> L = advanced"
  shows "str_contains (join (ascii '','') (sorted_list_of_set {advanced})) L \<longleftrightarrow> L \<in> {advanced}"
  using assms by (elim disjE) (simp_all add: level_codes comma_code)

lemma levels_substring_bi:
  assumes "L = basic \<or> L = intermediate \<or> L = advanced"
  shows "str_contains (join (ascii '','') (sorted_list_of_set {basic, intermediate})) L \<longleftrightarrow> L \<in> {basic, intermediate}"
  using assms by (elim disjE) (simp_all add: level_codes comma_code)

lemma levels_substring_ba:
  assumes "L = basic \<or> L = intermediate \<or> L = advanced"
  shows "str_contains (join (ascii '','') (sorted_list_of_set {basic, advanced})) L \<longleftrightarrow> L \<in> {basic, advanced}"
  using assms by (elim disjE) (simp_all add: level_codes comma_code)

lemma levels_substring_ia:
  assumes "L = basic \<or> L = intermediate \<or> L = advanced"
  shows "str_contains (join (ascii '','') (sorted_list_of_set {intermediate, advanced})) L \<longleftrightarrow> L \<in> {intermediate, advanced}"
  using assms by (elim disjE) (simp_all add: level_codes comma_code)

lemma levels_substring_bia:
  assumes "L = basic \<or> L = intermediate \<or> L = advanced"
  shows "str_contains (join (ascii '','') (sorted_list_of_set {basic, intermediate, advanced})) L \<longleftrightarrow> L \<in> {basic, intermediate, advanced}"
  using assms by (elim disjE) (simp_all add: level_codes comma_code)

lemma levels_substring:
  assumes "S \<subseteq> {basic, intermediate, advanced}"
    and "L = basic \<or> L = intermediate \<or> L = advanced"
  shows "str_contains (join (ascii '','') (sorted_list_of_set S)) L \<longleftrightarrow> L \<in> S"
  using subset_of_levels [OF assms(1)]
  by (elim disjE)
     (simp_all only: levels_substring_none [OF assms(2)] levels_substring_b [OF assms(2)]
        levels_substring_i [OF assms(2)] levels_substring_a [OF assms(2)]
        levels_substring_bi [OF assms(2)] levels_substring_ba [OF assms(2)]
        levels_substring_ia [OF assms(2)] levels_substring_bia [OF assms(2)])

lemma Levels_custom_entry: "Levels (custom_entry G t vl rad u) = joined_levels u"
  by (auto simp: custom_entry_def Let_def split: option.splits prod.splits)

lemma level_of_use:
  assumes "use \<in> set (vocab_uses fs)"
  shows "fst use \<in> set level_names"
proof -
  from assms obtain l where l: "l \<in> set level_names" and u: "use \<in> set (level_uses fs l)"
    by (auto simp: vocab_uses_def)
  from u have "fst use = l"
    by (auto simp: level_uses_def rows_uses_def row_uses_def split: csv_file.splits)
  with l show ?thesis by simp
qed

lemma extract_levels:
  assumes "extract_radicals_from_vocab fs = Inr (ru, vl)" and "dict_get ru g = Some u"
  shows "levels u \<subseteq> {basic, intermediate, advanced}"
proof -
  from assms have "u = usage_after new_usage (uses_of g (vocab_uses fs))"
    by (simp add: extract_get split: if_splits)
  then have "levels u = fst ` set (uses_of g (vocab_uses fs))"
    by (simp add: levels_usage_after new_usage_def)
  moreover have "fst use \<in> {basic, intermediate, advanced}"
    if "use \<in> set (uses_of g (vocab_uses fs))" for use
    using that level_of_use [of use fs] by (simp add: uses_of_def level_names_def)
  ultimately show ?thesis by auto
qed

lemma Levels_column: "row_get (csv_row_of e) ''Levels'' = Levels e"
  by (simp add: row_get_def csv_row_of_def dict_get_def)

text \<open>
  C10. For every entry of the derived table and each of the three level names, the
  verifier's test, that the level name occurs as a substring in the entry's
  comma-joined levels field (as the entry holds it, and as the written row holds it), is
  true exactly when the level is in the level set of the glyph's usage record.
\<close>

theorem level_substring_is_membership:
  assumes "derive G fs = Inr out" and "e \<in> set out" and "L \<in> set level_names"
  shows "\<exists>ru vl u. extract_radicals_from_vocab fs = Inr (ru, vl)
           \<and> dict_get ru (Radical e) = Some u
           \<and> Levels e = join (ascii '','') (sorted_list_of_set (levels u))
           \<and> (str_contains (Levels e) L \<longleftrightarrow> L \<in> levels u)
           \<and> (str_contains (row_get (csv_row_of e) ''Levels'') L \<longleftrightarrow> L \<in> levels u)"
proof -
  from derive_entry [OF assms(1,2)] obtain rows ru vl u
    where ex: "extract_radicals_from_vocab fs = Inr (ru, vl)"
      and mem: "(Radical e, u) \<in> set ru"
      and e: "e = custom_entry G (load_rows rows) vl (Radical e) u"
    by blast
  from extract_keys [OF ex] have "distinct (map fst ru)" by (simp add: dict_keys_def)
  with mem have get: "dict_get ru (Radical e) = Some u"
    by (simp add: dict_get_def)
  have lev: "Levels e = joined_levels u"
    by (subst e) (rule Levels_custom_entry)
  from assms(3) have L: "L = basic \<or> L = intermediate \<or> L = advanced"
    by (simp add: level_names_def)
  have "str_contains (Levels e) L \<longleftrightarrow> L \<in> levels u"
    unfolding lev joined_levels_def
    by (rule levels_substring [OF extract_levels [OF ex get] L])
  with ex get lev show ?thesis
    by (auto simp: Levels_column joined_levels_def)
qed

theorem level_substring_is_membership_witness:
  "derive module_globals order_fs = Inr order_table
   \<and> water_entry \<in> set order_table \<and> intermediate \<in> set level_names
   \<and> basic \<in> set level_names
   \<and> Levels water_entry = intermediate
   \<and> str_contains (row_get (csv_row_of water_entry) ''Levels'') intermediate
   \<and> \<not> str_contains (row_get (csv_row_of water_entry) ''Levels'') basic
   \<and> (\<exists>ru vl u. extract_radicals_from_vocab order_fs = Inr (ru, vl)
          \<and> dict_get ru (Radical water_entry) = Some u \<and> levels u = {intermediate})"
proof -
  have m: "water_entry \<in> set order_table" by (simp add: order_table_def)
  have i: "intermediate \<in> set level_names" and b: "basic \<in> set level_names"
    by (simp_all add: level_names_def)
  have r: "Radical water_entry = [27700]" and l: "Levels water_entry = intermediate"
    by (simp_all add: water_entry_def)
  have g: "dict_get [([27701::nat], \<lparr>count = 1, levels = {basic}, words = [[27773, 36710]]\<rparr>),
           ([27668], \<lparr>count = 1, levels = {basic}, words = [[27773, 36710]]\<rparr>),
           ([36710], \<lparr>count = 1, levels = {basic}, words = [[27773, 36710]]\<rparr>),
           ([27700], \<lparr>count = 1, levels = {intermediate}, words = [[27700]]\<rparr>)] [27700::nat]
        = Some \<lparr>count = 1, levels = {intermediate}, words = [[27700]]\<rparr>"
    by (simp add: dict_get_def)
  from level_substring_is_membership [OF order_derive m i]
    level_substring_is_membership [OF order_derive m b]
    order_derive m i b l
  show ?thesis
    by (auto simp: order_extract r g level_names_distinct)
qed

section \<open>C3: which inputs abort the run\<close>


lemma scan_level_Inr:
  assumes "vocab_csv fs l \<noteq> Unreadable"
  shows "\<exists>st'. scan_level fs st l = Inr st'"
  using assms
  by (cases "vocab_csv fs l") (simp_all add: scan_level_def path_exists_def open_read_def)

lemma scan_level_Inl:
  assumes "vocab_csv fs l = Unreadable"
  shows "scan_level fs st l = Inl PermissionError"
  using assms by (simp add: scan_level_def path_exists_def open_read_def)

lemma scan_levels_Inr:
  assumes "\<forall>l\<in>set ls. vocab_csv fs l \<noteq> Unreadable"
  shows "\<exists>st'. scan_levels fs st ls = Inr st'"
  using assms
proof (induction ls arbitrary: st)
  case Nil
  show ?case by simp
next
  case (Cons l ls)
  from Cons.prems scan_level_Inr [of fs l st] obtain st1
    where "scan_level fs st l = Inr st1" by auto
  with Cons.IH [of st1] Cons.prems show ?case by simp
qed

lemma scan_levels_Inl:
  assumes "\<exists>l\<in>set ls. vocab_csv fs l = Unreadable"
  shows "\<exists>e. scan_levels fs st ls = Inl e"
proof (cases "scan_levels fs st ls")
  case (Inl e)
  then show ?thesis by simp
next
  case (Inr st')
  from scan_levels_uses [OF Inr] assms show ?thesis by auto
qed

lemma level_set: "set level_names = {basic, intermediate, advanced}"
  by (simp add: level_names_def)

text \<open>
  C3, as amended. The builder aborts, leaving every file as it was, exactly when
  \<open>radicals_214.csv\<close> is missing or cannot be read, or one of the three vocabulary files
  exists but cannot be read. In every other case, also when vocabulary files are
  missing, it completes: the derived table is built from the levels whose files exist and
  replaces \<open>radicals.csv\<close>.
\<close>

theorem abort_on_unreadable_input:
  "(if (\<forall>rows. radicals_214_csv fs \<noteq> Readable rows)
       \<or> basic_csv fs = Unreadable \<or> intermediate_csv fs = Unreadable
       \<or> advanced_csv fs = Unreadable
    then \<exists>e. build_main G fs = (Some e, fs)
    else \<exists>out. derive G fs = Inr out
           \<and> build_main G fs = (None, fs\<lparr>radicals_csv := Readable (map csv_row_of out)\<rparr>)
           \<and> set (map Radical out) = used_glyphs fs)"
proof (cases "\<forall>rows. radicals_214_csv fs \<noteq> Readable rows")
  case True
  then have "\<exists>e. load_radicals_214 fs = Inl e"
    by (cases "radicals_214_csv fs") (simp_all add: load_radicals_214_def open_read_def)
  then have "\<exists>e. build_main G fs = (Some e, fs)"
    by (auto simp: build_main_def derive_def)
  with True show ?thesis by simp
next
  case False
  then obtain rows where r: "radicals_214_csv fs = Readable rows" by blast
  then have load: "load_radicals_214 fs = Inr (load_rows rows)"
    by (simp add: load_radicals_214_def open_read_def)
  show ?thesis
  proof (cases "basic_csv fs = Unreadable \<or> intermediate_csv fs = Unreadable
                  \<or> advanced_csv fs = Unreadable")
    case True
    then have "\<exists>l\<in>set level_names. vocab_csv fs l = Unreadable"
      by (auto simp: level_set vocab_csv_simps)
    from scan_levels_Inl [OF this, of "([], [])"] obtain e
      where "extract_radicals_from_vocab fs = Inl e"
      unfolding extract_radicals_from_vocab_def by blast
    with load have "build_main G fs = (Some e, fs)"
      by (simp add: build_main_def derive_def)
    with True show ?thesis by auto
  next
    case ok: False
    then have "\<forall>l\<in>set level_names. vocab_csv fs l \<noteq> Unreadable"
      by (auto simp: level_set vocab_csv_simps)
    from scan_levels_Inr [OF this, of "([], [])"] obtain ru vl
      where ex: "extract_radicals_from_vocab fs = Inr (ru, vl)"
      unfolding extract_radicals_from_vocab_def by (cases "scan_levels fs ([], []) level_names") auto
    define out where "out = sort_radicals (build_custom_radicals G (load_rows rows) ru vl)"
    from load ex have d: "derive G fs = Inr out"
      by (simp add: derive_def out_def)
    then have b: "build_main G fs = (None, fs\<lparr>radicals_csv := Readable (map csv_row_of out)\<rparr>)"
      by (simp add: build_main_def write_radicals_csv_def)
    from derive_keys [OF d] ex extract_keys [OF ex]
    have "set (map Radical out) = used_glyphs fs" by auto
    with d b False ok show ?thesis by auto
  qed
qed

lemma skip_extract:
  "extract_radicals_from_vocab skip_fs =
     Inr ([([27668], \<lparr>count = 1, levels = {intermediate}, words = [[27668]]\<rparr>)],
          [([27668], [113, 236], ascii ''air'')])"
  by (simp add: extract_radicals_from_vocab_def level_names_def scan_level_def vocab_csv_simps
      skip_fs_def path_exists_def open_read_def scan_row_def Let_def scan_component_def
      strip_def py_isspace_def use_radical_def dict_get_def dict_in_def record_use_eval
      new_usage_def)

lemma skip_derive: "derive module_globals skip_fs = Inr [skip_entry]"
proof -
  have r: "radicals_214_csv skip_fs = Readable [qi_row]"
    by (simp add: skip_fs_def)
  have t: "dict_get traditional_forms [27668] = None"
    by (simp add: dict_get_def traditional_forms_def)
  show ?thesis
    unfolding derive_eval [OF r skip_extract] scenario_load
    by (simp add: build_custom_radicals_def custom_entry_def dict_get_def [of "[_]"]
        info_of_row_def qi_row_def joined_levels_intermediate module_globals_def t
        sort_radicals_def skip_entry_def)
qed

theorem input_absent_counterexample:
  "basic_csv skip_fs = Missing \<and> advanced_csv skip_fs = Missing
   \<and> build_main module_globals skip_fs =
       (None, skip_fs\<lparr>radicals_csv := Readable [csv_row_of skip_entry]\<rparr>)
   \<and> skip_fs\<lparr>radicals_csv := Readable [csv_row_of skip_entry]\<rparr> \<noteq> skip_fs"
proof -
  have "radicals_csv (skip_fs\<lparr>radicals_csv := Readable [csv_row_of skip_entry]\<rparr>)
          \<noteq> radicals_csv skip_fs"
    by (simp add: skip_fs_def)
  then have "skip_fs\<lparr>radicals_csv := Readable [csv_row_of skip_entry]\<rparr> \<noteq> skip_fs"
    by metis
  then show ?thesis
    by (simp add: build_main_def skip_derive write_radicals_csv_def) (simp add: skip_fs_def)
qed

theorem abort_on_unreadable_input_witness:
  "(\<forall>rows. radicals_214_csv abort_fs \<noteq> Readable rows)
   \<and> build_main module_globals abort_fs = (Some FileNotFoundError, abort_fs)
   \<and> \<not> ((\<forall>rows. radicals_214_csv skip_fs \<noteq> Readable rows)
          \<or> basic_csv skip_fs = Unreadable \<or> intermediate_csv skip_fs = Unreadable
          \<or> advanced_csv skip_fs = Unreadable)
   \<and> (\<exists>out. derive module_globals skip_fs = Inr out
          \<and> build_main module_globals skip_fs =
               (None, skip_fs\<lparr>radicals_csv := Readable (map csv_row_of out)\<rparr>)
          \<and> set (map Radical out) = used_glyphs skip_fs)"
proof -
  have a: "\<forall>rows. radicals_214_csv abort_fs \<noteq> Readable rows"
    by (simp add: abort_fs_def)
  have b: "build_main module_globals abort_fs = (Some FileNotFoundError, abort_fs)"
    by (simp add: build_main_def derive_def load_radicals_214_def open_read_def abort_fs_def)
  have s: "\<not> ((\<forall>rows. radicals_214_csv skip_fs \<noteq> Readable rows)
          \<or> basic_csv skip_fs = Unreadable \<or> intermediate_csv skip_fs = Unreadable
          \<or> advanced_csv skip_fs = Unreadable)"
    by (simp add: skip_fs_def)
  from abort_on_unreadable_input [of abort_fs module_globals]
    abort_on_unreadable_input [of skip_fs module_globals] a b s
  show ?thesis by simp
qed

section \<open>C8: the end-to-end scenario\<close>


lemma Radical_column: "dict_get (csv_row_of e) ''Radical'' = Some (Radical e)"
  by (simp add: csv_row_of_def dict_get_def)

lemma load_radicals_map_written:
  "load_radicals_map m (map csv_row_of es) =
     Inr (foldl (\<lambda>m e. dict_set m (Radical e) (csv_row_of e)) m es)"
  by (induction es arbitrary: m) (simp_all add: Radical_column)

lemma scenario_written:
  "snd (build_main scenario_globals scenario_fs) =
     scenario_fs\<lparr>radicals_csv := Readable (map csv_row_of scenario_table)\<rparr>"
  by (simp add: build_main_def scenario_derive write_radicals_csv_def)

lemma scenario_map:
  "load_radicals_map [] (map csv_row_of scenario_table) =
     Inr [([27668], csv_row_of qi_entry), ([27701], csv_row_of shui_entry),
          ([36710], csv_row_of che_entry)]"
  unfolding load_radicals_map_written
  by (simp add: scenario_table_def qi_entry_def shui_entry_def che_entry_def)

lemma basic_in_basic: "str_contains basic basic"
  by (simp add: level_codes)

lemma scenario_check:
  "check_rows [([27668], csv_row_of qi_entry), ([27701], csv_row_of shui_entry),
               ([36710], csv_row_of che_entry)] basic [qiche_row] = ({}, {}, 3)"
proof -
  have l: "Levels qi_entry = basic" "Levels shui_entry = basic" "Levels che_entry = basic"
    by (simp_all add: qi_entry_def shui_entry_def che_entry_def)
  show ?thesis
    by (simp add: check_rows_def check_row_def qiche_row_def check_component_def Let_def
        strip_def py_isspace_def dict_get_def [of "[_, _, _]"] Levels_column l basic_in_basic)
qed

lemma scenario_findings:
  "level_findings (snd (build_main scenario_globals scenario_fs)) basic = Some ({}, {})"
  "level_findings (snd (build_main scenario_globals scenario_fs)) intermediate = Some ({}, {})"
  "level_findings (snd (build_main scenario_globals scenario_fs)) advanced = Some ({}, {})"
proof -
  have "check_rows m l [] = ({}, {}, 0)" for m l
    by (simp add: check_rows_def)
  then show
    "level_findings (snd (build_main scenario_globals scenario_fs)) intermediate = Some ({}, {})"
    "level_findings (snd (build_main scenario_globals scenario_fs)) advanced = Some ({}, {})"
    unfolding scenario_written
    by (simp_all add: level_findings_def scenario_map vocab_csv_simps scenario_fs_def)
  show "level_findings (snd (build_main scenario_globals scenario_fs)) basic = Some ({}, {})"
    unfolding scenario_written
    by (simp add: level_findings_def scenario_map vocab_csv_simps scenario_fs_def scenario_check)
qed

text \<open>
  C8, as amended. On the inputs of the scenario the derived table has exactly three
  entries, in this order: U+6C14, canonical, levels \<open>basic\<close>, count 1; U+6C35, variant
  with main radical U+6C34, levels \<open>basic\<close>, count 1, and, U+6C34 not being in the
  scenario's canonical table, with an empty reading, the description \<open>variant of\<close>
  U+6C34 and the meaning \<open>component form\<close>; U+8F66, component, reading \<open>ch\<close> U+0113,
  meaning \<open>vehicle\<close>, levels \<open>basic\<close>, count 1. The alignment check of the verifier on
  the written table and this vocabulary ends with both sets empty for every level.
  The description of the variant does not contain \<open>variant form\<close>; a table that
  has U+6C34 gives the description with \<open>(variant form)\<close>, as in \<open>water_side_entry\<close>
  of \<open>order_table\<close>. With the component table of the module in place of the
  scenario's, the meaning of U+8F66 is \<open>car; vehicle\<close>.
\<close>

theorem scenario_end_to_end:
  "derive scenario_globals scenario_fs = Inr [qi_entry, shui_entry, che_entry]
   \<and> Radical qi_entry = [27668] \<and> Set qi_entry = kangxi_214
   \<and> Levels qi_entry = basic \<and> UsageCount qi_entry = 1
   \<and> Radical shui_entry = [27701] \<and> Set shui_entry = variant
   \<and> MainRadical shui_entry = Some [27700] \<and> Pinyin shui_entry = []
   \<and> Description shui_entry = ascii ''variant of '' @ [27700]
   \<and> Meaning shui_entry = ascii ''component form''
   \<and> Levels shui_entry = basic \<and> UsageCount shui_entry = 1
   \<and> Radical che_entry = [36710] \<and> Set che_entry = component
   \<and> Pinyin che_entry = [99, 104, 275] \<and> Meaning che_entry = ascii ''vehicle''
   \<and> Levels che_entry = basic \<and> UsageCount che_entry = 1
   \<and> level_findings (snd (build_main scenario_globals scenario_fs)) basic = Some ({}, {})
   \<and> level_findings (snd (build_main scenario_globals scenario_fs)) intermediate = Some ({}, {})
   \<and> level_findings (snd (build_main scenario_globals scenario_fs)) advanced = Some ({}, {})"
  using scenario_derive scenario_findings
  by (simp add: scenario_table_def qi_entry_def shui_entry_def che_entry_def)

theorem scenario_description_counterexample:
  "derive scenario_globals scenario_fs = Inr [qi_entry, shui_entry, che_entry]
   \<and> Radical shui_entry = [27701]
   \<and> \<not> str_contains (Description shui_entry) (ascii ''variant form'')"
proof -
  have "\<not> str_contains (Description shui_entry) (ascii ''variant form'')"
    by (simp add: shui_entry_def ascii_def)
  with scenario_derive show ?thesis
    by (simp add: scenario_table_def shui_entry_def)
qed

lemma scenario_module_tables:
  "derive module_globals scenario_fs =
     Inr [qi_entry, shui_entry, che_entry\<lparr>Meaning := ascii ''car; vehicle''\<rparr>]"
proof -
  have r: "radicals_214_csv scenario_fs = Readable [qi_row]"
    by (simp add: scenario_fs_def)
  have t: "dict_get traditional_forms [27668] = None"
    by (simp add: dict_get_def traditional_forms_def)
  have v: "dict_get variant_to_main [27701] = Some [27700]"
    "dict_get variant_to_main [36710] = None"
    by (simp_all add: dict_get_def variant_to_main_def)
  have b: "build_custom_radicals module_globals [([27668], info_of_row qi_row)]
     [([27701], \<lparr>count = 1, levels = {basic}, words = [[27773, 36710]]\<rparr>),
      ([27668], \<lparr>count = 1, levels = {basic}, words = [[27773, 36710]]\<rparr>),
      ([36710], \<lparr>count = 1, levels = {basic}, words = [[27773, 36710]]\<rparr>)]
     [([27773, 36710], [], [])] =
     [shui_entry, qi_entry, che_entry\<lparr>Meaning := ascii ''car; vehicle''\<rparr>]"
    by (simp add: build_custom_radicals_def custom_entry_def module_globals_def t v
        dict_get_def [of "[_]"] che_common info_of_row_def qi_row_def joined_levels_basic
        qi_entry_def shui_entry_def che_entry_def)
  have k: "radical_key (che_entry\<lparr>Meaning := ascii ''car; vehicle''\<rparr>) = (2, [36710])"
    by (simp add: radical_key_def che_entry_def set_order_def dict_get_def tags_distinct)
  show ?thesis
    unfolding derive_eval [OF r scenario_extract] scenario_load b
    by (simp add: sort_radicals_def scenario_keys k)
qed

section \<open>C6: the findings of the alignment check and the verdict\<close>


lemma check_component_eq:
  "check_component m level (M, W, T) rad0 =
     (let rad = strip rad0
      in if rad = [] then (M, W, T)
         else ((if dict_get m rad = None then insert rad M else M),
               (if wrong_level m level rad then insert rad W else W), T + 1))"
  by (auto simp: check_component_def Let_def wrong_level_def split: option.splits)

lemma foldl_check_component:
  "foldl (check_component m level) (M, W, T) comps =
     (M \<union> {g \<in> set (filter (\<lambda>rad. rad \<noteq> []) (map strip comps)). dict_get m g = None},
      W \<union> {g \<in> set (filter (\<lambda>rad. rad \<noteq> []) (map strip comps)). wrong_level m level g},
      T + int (length (filter (\<lambda>rad. rad \<noteq> []) (map strip comps))))"
proof (induction comps arbitrary: M W T)
  case Nil
  show ?case by simp
next
  case (Cons c comps)
  show ?case
    by (simp add: check_component_eq Let_def Cons.IH) auto
qed

lemma check_row_eq:
  "check_row m level (M, W, T) row =
     (M \<union> {g \<in> set (glyphs_of (v_Radicals row)). dict_get m g = None},
      W \<union> {g \<in> set (glyphs_of (v_Radicals row)). wrong_level m level g},
      T + int (length (glyphs_of (v_Radicals row))))"
proof (cases "v_Radicals row = []")
  case True
  then show ?thesis by (simp add: check_row_def glyphs_of_Nil)
next
  case False
  then show ?thesis
    by (simp add: check_row_def Let_def foldl_check_component glyphs_of_def)
qed

lemma foldl_check_row:
  "foldl (check_row m level) (M, W, T) rows =
     (M \<union> {g \<in> (\<lambda>use. snd (snd use)) ` set (rows_uses level rows). dict_get m g = None},
      W \<union> {g \<in> (\<lambda>use. snd (snd use)) ` set (rows_uses level rows). wrong_level m level g},
      T + int (length (rows_uses level rows)))"
proof (induction rows arbitrary: M W T)
  case Nil
  show ?case by (simp add: rows_uses_def)
next
  case (Cons row rows)
  have u: "rows_uses level (row # rows) = row_uses level row @ rows_uses level rows"
    by (simp add: rows_uses_def)
  have g: "(\<lambda>use. snd (snd use)) ` set (row_uses level row) = set (glyphs_of (v_Radicals row))"
    by (auto simp: row_uses_def image_iff)
  have l: "length (row_uses level row) = length (glyphs_of (v_Radicals row))"
    by (simp add: row_uses_def)
  show ?case
    unfolding u by (simp add: check_row_eq Cons.IH image_Un g l) auto
qed

lemma check_rows_eq:
  "check_rows m level rows =
     ({g \<in> (\<lambda>use. snd (snd use)) ` set (rows_uses level rows). dict_get m g = None},
      {g \<in> (\<lambda>use. snd (snd use)) ` set (rows_uses level rows). wrong_level m level g},
      int (length (rows_uses level rows)))"
  by (simp add: check_rows_def foldl_check_row)

lemma check_214_errors:
  assumes "check_214 fs rep = Inr rep'"
  shows "errors rep' = [] \<longleftrightarrow> errors rep = [] \<and> ok_214 fs"
  using assms
  by (cases "radicals_214_csv fs")
     (auto simp: check_214_def path_exists_def open_read_def Let_def ok_214_def
        split: if_splits)

lemma check_214_Inr:
  assumes "ok_214 fs"
  shows "\<exists>rep'. check_214 fs rep = Inr rep'"
  using assms
  by (auto simp: check_214_def path_exists_def open_read_def Let_def ok_214_def)

lemma check_radicals_csv_errors:
  assumes "check_radicals_csv fs rep = Inr rep'"
  shows "errors rep' = [] \<longleftrightarrow> errors rep = [] \<and> ok_columns fs"
proof (cases "radicals_csv fs")
  case Missing
  with assms show ?thesis
    by (auto simp: check_radicals_csv_def path_exists_def ok_columns_def)
next
  case Unreadable
  with assms show ?thesis
    by (simp add: check_radicals_csv_def path_exists_def open_read_def)
next
  case (Readable written)
  show ?thesis
  proof (cases written)
    case Nil
    with Readable assms show ?thesis
      by (auto simp: check_radicals_csv_def path_exists_def open_read_def ok_columns_def)
  next
    case (Cons row0 more)
    have "filter (\<lambda>c. \<not> dict_in c row0) required_cols = []
            \<longleftrightarrow> (\<forall>c\<in>set required_cols. dict_in c row0)"
      by (simp add: filter_empty_conv)
    with Cons Readable assms show ?thesis
      by (auto simp: check_radicals_csv_def path_exists_def open_read_def ok_columns_def
          Let_def split: if_splits)
  qed
qed

lemma check_radicals_csv_Inr:
  assumes "radicals_csv fs = Readable written"
  shows "\<exists>rep'. check_radicals_csv fs rep = Inr rep'"
  using assms
  by (cases written)
     (auto simp: check_radicals_csv_def path_exists_def open_read_def Let_def)

lemma check_level_errors:
  assumes "check_level fs m rep l = Inr rep'"
  shows "(errors rep' = [] \<longleftrightarrow> errors rep = [] \<and> level_clean fs m l)
         \<and> vocab_csv fs l \<noteq> Unreadable"
proof (cases "vocab_csv fs l")
  case Missing
  with assms show ?thesis
    by (auto simp: check_level_def path_exists_def level_clean_def)
next
  case Unreadable
  with assms show ?thesis
    by (simp add: check_level_def path_exists_def open_read_def)
next
  case (Readable rows)
  obtain M W T where c: "check_rows m l rows = (M, W, T)"
    by (cases "check_rows m l rows") auto
  with Readable assms show ?thesis
    by (auto simp: check_level_def path_exists_def open_read_def level_clean_def Let_def
        split: if_splits)
qed

lemma check_level_Inr:
  assumes "vocab_csv fs l \<noteq> Unreadable"
  shows "\<exists>rep'. check_level fs m rep l = Inr rep'"
proof (cases "vocab_csv fs l")
  case Missing
  then show ?thesis by (simp add: check_level_def path_exists_def)
next
  case Unreadable
  with assms show ?thesis by simp
next
  case (Readable rows)
  obtain M W T where c: "check_rows m l rows = (M, W, T)"
    by (cases "check_rows m l rows") auto
  with Readable show ?thesis
    by (simp add: check_level_def path_exists_def open_read_def Let_def)
qed

lemma check_levels_errors:
  assumes "check_levels fs m rep ls = Inr rep'"
  shows "(errors rep' = [] \<longleftrightarrow> errors rep = [] \<and> (\<forall>l\<in>set ls. level_clean fs m l))
         \<and> (\<forall>l\<in>set ls. vocab_csv fs l \<noteq> Unreadable)"
  using assms
proof (induction ls arbitrary: rep)
  case Nil
  then show ?case by simp
next
  case (Cons l ls)
  from Cons.prems obtain rep1 where s1: "check_level fs m rep l = Inr rep1"
    and s2: "check_levels fs m rep1 ls = Inr rep'"
    by (auto split: sum.splits)
  from Cons.IH [OF s2] check_level_errors [OF s1] show ?case by auto
qed

lemma check_levels_Inr:
  assumes "\<forall>l\<in>set ls. vocab_csv fs l \<noteq> Unreadable"
  shows "\<exists>rep'. check_levels fs m rep ls = Inr rep'"
  using assms
proof (induction ls arbitrary: rep)
  case Nil
  show ?case by simp
next
  case (Cons l ls)
  from Cons.prems check_level_Inr [of fs l m rep] obtain rep1
    where "check_level fs m rep l = Inr rep1" by auto
  with Cons.IH [of rep1] Cons.prems show ?case by simp
qed

lemma level_findings_eq:
  assumes "radicals_csv fs = Readable written" and "load_radicals_map [] written = Inr m"
    and "vocab_csv fs l = Readable rows"
  shows "level_findings fs l = Some (fst (check_rows m l rows), fst (snd (check_rows m l rows)))"
  using assms by (simp add: level_findings_def split: prod.splits)

lemma level_clean_findings:
  assumes "radicals_csv fs = Readable written" and "load_radicals_map [] written = Inr m"
  shows "level_clean fs m l \<longleftrightarrow>
           (\<forall>rows. vocab_csv fs l = Readable rows \<longrightarrow> level_findings fs l = Some ({}, {}))"
  by (auto simp: level_clean_def level_findings_eq [OF assms])

lemma verify_main_zero:
  "verify_main fs = Inr 0 \<longleftrightarrow> (\<exists>rep. verify_checks fs = Inr rep \<and> errors rep = [])"
  by (auto simp: verify_main_def split: sum.splits)

lemma verify_checks_Inr:
  assumes "verify_checks fs = Inr rep"
  shows "\<exists>rep1 rep2 written m.
           check_214 fs \<lparr>errors = [], warnings = []\<rparr> = Inr rep1
           \<and> check_radicals_csv fs rep1 = Inr rep2
           \<and> radicals_csv fs = Readable written
           \<and> load_radicals_map [] written = Inr m
           \<and> check_levels fs m rep2 level_names = Inr rep"
  using assms
  by (cases "radicals_csv fs")
     (auto simp: verify_checks_def open_read_def split: sum.splits)

lemma verdict_pass:
  "verify_main fs = Inr 0 \<longleftrightarrow>
     ok_214 fs \<and> ok_columns fs
     \<and> (\<exists>written m. radicals_csv fs = Readable written
           \<and> load_radicals_map [] written = Inr m)
     \<and> (\<forall>l\<in>set level_names. vocab_csv fs l \<noteq> Unreadable)
     \<and> (\<forall>l\<in>set level_names. \<forall>rows. vocab_csv fs l = Readable rows \<longrightarrow>
           level_findings fs l = Some ({}, {}))"
  (is "?lhs \<longleftrightarrow> ?rhs")
proof
  assume ?lhs
  then obtain rep where v: "verify_checks fs = Inr rep" and e: "errors rep = []"
    by (auto simp: verify_main_zero)
  from verify_checks_Inr [OF v] obtain rep1 rep2 written m
    where c1: "check_214 fs \<lparr>errors = [], warnings = []\<rparr> = Inr rep1"
      and c2: "check_radicals_csv fs rep1 = Inr rep2"
      and w: "radicals_csv fs = Readable written"
      and lm: "load_radicals_map [] written = Inr m"
      and cl: "check_levels fs m rep2 level_names = Inr rep"
    by blast
  from check_levels_errors [OF cl] e have e2: "errors rep2 = []"
    and clean: "\<forall>l\<in>set level_names. level_clean fs m l"
    and readable: "\<forall>l\<in>set level_names. vocab_csv fs l \<noteq> Unreadable"
    by auto
  from check_radicals_csv_errors [OF c2] e2 have e1: "errors rep1 = []" and oc: "ok_columns fs"
    by auto
  from check_214_errors [OF c1] e1 have o2: "ok_214 fs" by auto
  from clean have "\<forall>l\<in>set level_names. \<forall>rows. vocab_csv fs l = Readable rows \<longrightarrow>
           level_findings fs l = Some ({}, {})"
    by (simp add: level_clean_findings [OF w lm])
  with o2 oc w lm readable show ?rhs by blast
next
  assume r: ?rhs
  then obtain written m where w: "radicals_csv fs = Readable written"
    and lm: "load_radicals_map [] written = Inr m"
    by blast
  from r have o2: "ok_214 fs" and oc: "ok_columns fs"
    and readable: "\<forall>l\<in>set level_names. vocab_csv fs l \<noteq> Unreadable"
    and clean: "\<forall>l\<in>set level_names. level_clean fs m l"
    by (simp_all add: level_clean_findings [OF w lm])
  from check_214_Inr [OF o2] obtain rep1
    where c1: "check_214 fs \<lparr>errors = [], warnings = []\<rparr> = Inr rep1" by blast
  from check_214_errors [OF c1] o2 have e1: "errors rep1 = []" by simp
  from check_radicals_csv_Inr [OF w] obtain rep2
    where c2: "check_radicals_csv fs rep1 = Inr rep2" by blast
  from check_radicals_csv_errors [OF c2] e1 oc have e2: "errors rep2 = []" by simp
  from check_levels_Inr [OF readable] obtain rep
    where cl: "check_levels fs m rep2 level_names = Inr rep" by blast
  from check_levels_errors [OF cl] e2 clean have e: "errors rep = []" by simp
  from c1 c2 w lm cl have "verify_checks fs = Inr rep"
    by (simp add: verify_checks_def open_read_def)
  with e show ?lhs by (auto simp: verify_main_zero)
qed

text \<open>
  C6, as amended. For a level whose file is read, a glyph is in \<open>missing_radicals\<close>
  exactly when it occurs in a decomposition of the level and is not a key of
  \<open>radicals_map\<close>, and in \<open>wrong_level_radicals\<close> exactly when it occurs, is a key, and
  the levels field of its row does not contain the name of the level. The verifier
  returns 0 exactly when checks 1 and 2 report no error (\<open>ok_214\<close>, \<open>ok_columns\<close>),
  \<open>radicals.csv\<close> loads into \<open>radicals_map\<close>, no level file is unreadable, and both
  sets are empty for every level whose file exists. Empty sets alone are not enough: on
  the files of the scenario the sets are empty and the verifier returns 1.
\<close>

theorem validation_findings_and_verdict:
  "(g \<in> fst (check_rows m level rows) \<longleftrightarrow>
      g \<in> (\<lambda>use. snd (snd use)) ` set (rows_uses level rows) \<and> dict_get m g = None)
   \<and> (g \<in> fst (snd (check_rows m level rows)) \<longleftrightarrow>
        g \<in> (\<lambda>use. snd (snd use)) ` set (rows_uses level rows)
        \<and> (\<exists>row. dict_get m g = Some row
               \<and> \<not> str_contains (row_get row ''Levels'') level))
   \<and> (verify_main fs = Inr 0 \<longleftrightarrow>
        ok_214 fs \<and> ok_columns fs
        \<and> (\<exists>written rm. radicals_csv fs = Readable written
              \<and> load_radicals_map [] written = Inr rm)
        \<and> (\<forall>l\<in>set level_names. vocab_csv fs l \<noteq> Unreadable)
        \<and> (\<forall>l\<in>set level_names. \<forall>vrows. vocab_csv fs l = Readable vrows \<longrightarrow>
              level_findings fs l = Some ({}, {})))"
proof -
  have "wrong_level m level g \<longleftrightarrow>
          (\<exists>row. dict_get m g = Some row \<and> \<not> str_contains (row_get row ''Levels'') level)"
    by (simp add: wrong_level_def split: option.splits)
  then show ?thesis
    using verdict_pass [of fs] by (simp add: check_rows_eq)
qed

lemma scenario_verify:
  "verify_checks (snd (build_main scenario_globals scenario_fs)) =
     Inr \<lparr>errors = [TooFewUnique 1], warnings = [UnexpectedEntryCount 1]\<rparr>"
proof -
  have c1: "check_214 (scenario_fs\<lparr>radicals_csv := Readable (map csv_row_of scenario_table)\<rparr>)
              \<lparr>errors = [], warnings = []\<rparr> =
            Inr \<lparr>errors = [TooFewUnique 1], warnings = [UnexpectedEntryCount 1]\<rparr>"
    by (simp add: check_214_def path_exists_def open_read_def Let_def scenario_fs_def)
  have cols: "filter (\<lambda>c. \<not> dict_in c (csv_row_of qi_entry)) required_cols = []"
    by (simp add: required_cols_def dict_in_def csv_row_of_def)
  have c2: "check_radicals_csv
              (scenario_fs\<lparr>radicals_csv := Readable (map csv_row_of scenario_table)\<rparr>) rep
            = Inr rep" for rep
    by (simp add: check_radicals_csv_def path_exists_def open_read_def Let_def cols
        scenario_table_def)
  have e: "check_rows m l [] = ({}, {}, 0)" for m l
    by (simp add: check_rows_def)
  have c3: "check_levels
              (scenario_fs\<lparr>radicals_csv := Readable (map csv_row_of scenario_table)\<rparr>)
              [([27668], csv_row_of qi_entry), ([27701], csv_row_of shui_entry),
               ([36710], csv_row_of che_entry)] rep level_names
            = Inr rep" for rep
    by (simp add: level_names_def check_level_def vocab_csv_simps path_exists_def
        open_read_def scenario_fs_def scenario_check e)
  show ?thesis
    unfolding scenario_written
    by (simp add: verify_checks_def c1 c2 open_read_def scenario_map c3)
qed

theorem verdict_counterexample:
  "verify_main (snd (build_main scenario_globals scenario_fs)) = Inr 1
   \<and> level_findings (snd (build_main scenario_globals scenario_fs)) basic = Some ({}, {})
   \<and> level_findings (snd (build_main scenario_globals scenario_fs)) intermediate = Some ({}, {})
   \<and> level_findings (snd (build_main scenario_globals scenario_fs)) advanced = Some ({}, {})"
  by (simp add: verify_main_def scenario_verify scenario_findings)

lemma kangxi_rows_distinct: "length (remdups (map k_Radical kangxi_rows)) = 214"
proof -
  have "distinct (map k_Radical kangxi_rows)"
    by (simp add: kangxi_rows_def distinct_map comp_def inj_on_def)
  then show ?thesis
    by (simp add: distinct_remdups_id) (simp add: kangxi_rows_def)
qed

lemma pass_findings:
  "level_findings pass_fs basic = Some ({}, {})"
  "level_findings pass_fs intermediate = Some ({}, {})"
proof -
  have l: "Levels yi_entry = basic" by (simp add: yi_entry_def)
  have c: "check_rows [([19968], csv_row_of yi_entry)] basic
             [\<lparr>v_Word = [19968], v_Pinyin = [], v_English = [], v_Radicals = [19968]\<rparr>]
           = ({}, {}, 1)"
    by (simp add: check_rows_def check_row_def check_component_def Let_def strip_def
        py_isspace_def dict_get_def [of "[_]"] Levels_column l basic_in_basic)
  have r: "Radical yi_entry = [19968]" by (simp add: yi_entry_def)
  show "level_findings pass_fs basic = Some ({}, {})"
    by (simp add: level_findings_def pass_fs_def Radical_column r vocab_csv_simps c)
  show "level_findings pass_fs intermediate = Some ({}, {})"
    by (simp add: level_findings_def pass_fs_def Radical_column r vocab_csv_simps check_rows_def)
qed

lemma written_map_glyphs:
  "(\<lambda>use. snd (snd use)) ` set (rows_uses intermediate [water_air_row]) = {[27700], [27668]}"
  by (simp add: rows_uses_def row_uses_def water_air_row_def glyphs_of_def strip_def
      py_isspace_def)

theorem validation_findings_and_verdict_witness:
  "verify_main pass_fs = Inr 0
   \<and> ok_214 pass_fs \<and> ok_columns pass_fs
   \<and> level_findings pass_fs basic = Some ({}, {})
   \<and> [27700] \<in> fst (check_rows written_map intermediate [water_air_row])
   \<and> [27668] \<notin> fst (check_rows written_map intermediate [water_air_row])
   \<and> [27668] \<in> fst (snd (check_rows written_map intermediate [water_air_row]))
   \<and> [27700] \<notin> fst (snd (check_rows written_map intermediate [water_air_row]))"
proof -
  have o2: "ok_214 pass_fs"
    by (simp add: ok_214_def pass_fs_def kangxi_rows_distinct)
  have oc: "ok_columns pass_fs"
    by (simp add: ok_columns_def pass_fs_def required_cols_def dict_in_def csv_row_of_def)
  have lm: "\<exists>written rm. radicals_csv pass_fs = Readable written
              \<and> load_radicals_map [] written = Inr rm"
    by (simp add: pass_fs_def Radical_column)
  have rd: "\<forall>l\<in>set level_names. vocab_csv pass_fs l \<noteq> Unreadable"
    by (simp add: level_names_def vocab_csv_simps pass_fs_def)
  have fi: "\<forall>l\<in>set level_names. \<forall>vrows. vocab_csv pass_fs l = Readable vrows \<longrightarrow>
              level_findings pass_fs l = Some ({}, {})"
    by (simp add: level_names_def vocab_csv_simps pass_findings) (simp add: pass_fs_def)
  have g1: "dict_get written_map [27700] = None"
    and g2: "dict_get written_map [27668] = Some (csv_row_of qi_entry)"
    by (simp_all add: written_map_def dict_get_def)
  have nl: "\<not> str_contains (row_get (csv_row_of qi_entry) ''Levels'') intermediate"
    by (simp add: Levels_column qi_entry_def level_codes)
  from validation_findings_and_verdict [of "[27700]" written_map intermediate "[water_air_row]" pass_fs]
    validation_findings_and_verdict [of "[27668]" written_map intermediate "[water_air_row]" pass_fs]
    o2 oc lm rd fi g1 g2 nl pass_findings(1)
  show ?thesis
    by (simp add: written_map_glyphs)
qed

end
